theory Spec2Isabelle
  imports Complex_Main "HOL-Library.Word" "HOL-Library.Multiset" "HOL-Library.AList"
begin

unbundle bit_operations_syntax

section \<open>Python values\<close>

text \<open>
  The documents handled by \<^verbatim>\<open>ivre/db/tiny.py\<close> are nested Python values: \<^verbatim>\<open>None\<close>,
  booleans, integers, floats, text, byte strings, \<^verbatim>\<open>datetime\<close> objects, lists and
  dictionaries. A dictionary is an association list in insertion order (Python keeps it);
  its keys are pairwise distinct in every Python value. Integers are unbounded. A
  \<^verbatim>\<open>datetime\<close> is identified with its position on the time line. A float is identified
  with the rational number it denotes, which every finite float has: equality, order,
  \<^verbatim>\<open>min\<close> and \<^verbatim>\<open>max\<close> of floats and integers are then exact, as they are in Python. The
  values \<^verbatim>\<open>inf\<close> and \<^verbatim>\<open>nan\<close> are not part of the embedding, and a sum with a float
  operand is the exact sum, which is Python's whenever the exact sum is a float.

  The comparisons follow Python 3: \<^verbatim>\<open>==\<close> never raises, compares booleans, integers
  and floats numerically and dictionaries without regard to the order of their items;
  \<^verbatim>\<open><\<close> raises \<^verbatim>\<open>TypeError\<close> on values of different kinds, on \<^verbatim>\<open>None\<close> and on
  dictionaries. \<open>py_num\<close> is the value of an instance of \<^verbatim>\<open>int\<close> (a \<^verbatim>\<open>bool\<close> is one),
  \<open>py_number\<close> the value of a number of any kind.
\<close>

datatype error =
    TypeError
  | AttributeError
  | KeyError
  | IndexError
  | ValueError
  | StructError
  | SocketError
  | UnicodeError

type_synonym byte = "8 word"

datatype jv =
    JNone
  | JBool bool
  | JInt int
  | JFloat rat
  | JStr string
  | JBytes "byte list"
  | JDatetime int
  | JList "jv list"
  | JDict "(string \<times> jv) list"

type_synonym doc = "(string \<times> jv) list"

fun py_num :: "jv \<Rightarrow> int option" where
  "py_num (JBool b) = Some (if b then 1 else 0)"
| "py_num (JInt i) = Some i"
| "py_num _ = None"

fun py_number :: "jv \<Rightarrow> rat option" where
  "py_number (JBool b) = Some (if b then 1 else 0)"
| "py_number (JInt i) = Some (of_int i)"
| "py_number (JFloat x) = Some x"
| "py_number _ = None"

fun py_eq :: "jv \<Rightarrow> jv \<Rightarrow> bool" where
  "py_eq JNone w = (w = JNone)"
| "py_eq (JBool b) w = (py_number w = Some (if b then 1 else 0))"
| "py_eq (JInt i) w = (py_number w = Some (of_int i))"
| "py_eq (JFloat x) w = (py_number w = Some x)"
| "py_eq (JStr s) w = (w = JStr s)"
| "py_eq (JBytes s) w = (w = JBytes s)"
| "py_eq (JDatetime d) w = (w = JDatetime d)"
| "py_eq (JList xs) w = (case w of JList ys \<Rightarrow> list_all2 py_eq xs ys | _ \<Rightarrow> False)"
| "py_eq (JDict a) w =
     (case w of
        JDict b \<Rightarrow> length a = length b \<and>
          list_all (\<lambda>(k, v). case map_of b k of None \<Rightarrow> False | Some u \<Rightarrow> py_eq v u) a
      | _ \<Rightarrow> False)"

fun lex_lt :: "'a::linorder list \<Rightarrow> 'a list \<Rightarrow> bool" where
  "lex_lt [] [] = False"
| "lex_lt [] (y # ys) = True"
| "lex_lt (x # xs) [] = False"
| "lex_lt (x # xs) (y # ys) = (if x < y then True else if y < x then False else lex_lt xs ys)"

fun py_lt :: "jv \<Rightarrow> jv \<Rightarrow> error + bool"
  and py_lt_list :: "jv list \<Rightarrow> jv list \<Rightarrow> error + bool" where
  "py_lt (JList xs) (JList ys) = py_lt_list xs ys"
| "py_lt (JStr s) (JStr t) = Inr (lex_lt (map (of_char :: char \<Rightarrow> nat) s) (map of_char t))"
| "py_lt (JBytes s) (JBytes t) = Inr (lex_lt s t)"
| "py_lt (JDatetime a) (JDatetime b) = Inr (a < b)"
| "py_lt v w =
     (case (py_number v, py_number w) of
        (Some x, Some y) \<Rightarrow> Inr (x < y)
      | _ \<Rightarrow> Inl TypeError)"
| "py_lt_list [] [] = Inr False"
| "py_lt_list [] (y # ys) = Inr True"
| "py_lt_list (x # xs) [] = Inr False"
| "py_lt_list (x # xs) (y # ys) = (if py_eq x y then py_lt_list xs ys else py_lt x y)"

text \<open>Truth value of a Python value, as \<^verbatim>\<open>x or y\<close> and \<^verbatim>\<open>if x\<close> test it.\<close>

fun truthy :: "jv \<Rightarrow> bool" where
  "truthy JNone = False"
| "truthy (JBool b) = b"
| "truthy (JInt i) = (i \<noteq> 0)"
| "truthy (JFloat x) = (x \<noteq> 0)"
| "truthy (JStr s) = (s \<noteq> [])"
| "truthy (JBytes s) = (s \<noteq> [])"
| "truthy (JDatetime d) = True"
| "truthy (JList xs) = (xs \<noteq> [])"
| "truthy (JDict kvs) = (kvs \<noteq> [])"

text \<open>A well-formed value: the keys of every dictionary in it are pairwise distinct.\<close>

fun wf_jv :: "jv \<Rightarrow> bool" where
  "wf_jv (JList xs) = list_all wf_jv xs"
| "wf_jv (JDict kvs) = (distinct (map fst kvs) \<and> list_all (\<lambda>(k, v). wf_jv v) kvs)"
| "wf_jv _ = True"

text \<open>
  What \<^verbatim>\<open>json.dumps\<close> writes: \<^verbatim>\<open>None\<close>, booleans, numbers, text, and lists and
  dictionaries of such values. On a byte string or a \<^verbatim>\<open>datetime\<close>, at any depth, it raises
  \<^verbatim>\<open>TypeError\<close>. What it writes, \<^verbatim>\<open>json.load\<close> reads back as the same value.
\<close>

fun json_serializable :: "jv \<Rightarrow> bool" where
  "json_serializable (JBytes s) = False"
| "json_serializable (JDatetime d) = False"
| "json_serializable (JList xs) = list_all json_serializable xs"
| "json_serializable (JDict kvs) = list_all (\<lambda>(k, v). json_serializable v) kvs"
| "json_serializable _ = True"

section \<open>The helpers of \<^verbatim>\<open>ivre.utils\<close>\<close>

text \<open>
  \<^verbatim>\<open>tiny.py\<close> calls four functions of \<^verbatim>\<open>ivre.utils\<close>, which is not part of the file:
  \<^verbatim>\<open>ip2bin\<close> (an address, text or packed, to its 16 packed bytes), \<^verbatim>\<open>bin2ip\<close> (packed
  bytes to text), \<^verbatim>\<open>datetime2timestamp\<close> and \<^verbatim>\<open>all2datetime\<close>. They are parameters
  of the embedding.
\<close>

record utils =
  ip2bin :: "jv \<Rightarrow> error + byte list"
  bin2ip :: "byte list \<Rightarrow> error + string"
  datetime2timestamp :: "int \<Rightarrow> jv"
  all2datetime :: "jv \<Rightarrow> error + int"

section \<open>The address codec\<close>

text \<open>
  \<^verbatim>\<open>struct.unpack('!QQ', b)\<close> reads two unsigned 64-bit integers, big-endian, from a
  string of exactly 16 bytes; \<^verbatim>\<open>struct.pack('!QQ', a, b)\<close> writes them and raises
  \<^verbatim>\<open>struct.error\<close> when an argument is outside \<open>0 .. 2^64 - 1\<close>.
\<close>

definition be2int :: "byte list \<Rightarrow> int" where
  "be2int bs = foldl (\<lambda>acc b. acc * 256 + uint b) 0 bs"

fun int2be :: "nat \<Rightarrow> int \<Rightarrow> byte list" where
  "int2be 0 v = []"
| "int2be (Suc n) v = int2be n (v div 256) @ [word_of_int v]"

definition unpack_QQ :: "byte list \<Rightarrow> error + (int \<times> int)" where
  "unpack_QQ bs =
     (if length bs \<noteq> 16 then Inl StructError
      else Inr (be2int (take 8 bs), be2int (drop 8 bs)))"

definition pack_QQ :: "int \<Rightarrow> int \<Rightarrow> error + byte list" where
  "pack_QQ a b =
     (if a < 0 \<or> 2 ^ 64 \<le> a \<or> b < 0 \<or> 2 ^ 64 \<le> b then Inl StructError
      else Inr (int2be 8 a @ int2be 8 b))"

text \<open>
  \<^verbatim>\<open>
  def ip2internal(addr):
      if isinstance(addr, int_types):
          return addr
      val1, val2 = struct.unpack('!QQ', utils.ip2bin(addr))
      return (val1 << 64) + val2
  \<close>
  A Python \<^verbatim>\<open>bool\<close> is an instance of \<^verbatim>\<open>int\<close>.
\<close>

definition ip2internal :: "utils \<Rightarrow> jv \<Rightarrow> error + jv" where
  "ip2internal u addr =
     (case py_num addr of
        Some i \<Rightarrow> Inr addr
      | None \<Rightarrow>
         (case ip2bin u addr of
            Inl e \<Rightarrow> Inl e
          | Inr bs \<Rightarrow>
             (case unpack_QQ bs of
                Inl e \<Rightarrow> Inl e
              | Inr (val1, val2) \<Rightarrow> Inr (JInt (push_bit 64 val1 + val2)))))"

text \<open>
  \<^verbatim>\<open>
  def internal2ip(addr):
      return utils.bin2ip(struct.pack('!QQ', addr >> 64, addr & 0xffffffffffffffff))
  \<close>
\<close>

definition internal2ip :: "utils \<Rightarrow> jv \<Rightarrow> error + string" where
  "internal2ip u addr =
     (case py_num addr of
        None \<Rightarrow> Inl TypeError
      | Some a \<Rightarrow>
         (case pack_QQ (drop_bit 64 a) (a AND 0xffffffffffffffff) of
            Inl e \<Rightarrow> Inl e
          | Inr bs \<Rightarrow> bin2ip u bs))"

section \<open>Strings and dictionaries\<close>

text \<open>\<^verbatim>\<open>s.split('.', 1)\<close>: \<open>None\<close> when \<open>s\<close> has no dot, else the text before and after
  the first dot. \<^verbatim>\<open>s.split('.')\<close> gives all the segments.\<close>

fun split1 :: "string \<Rightarrow> (string \<times> string) option" where
  "split1 [] = None"
| "split1 (c # cs) =
     (if c = CHR ''.'' then Some ([], cs)
      else (case split1 cs of None \<Rightarrow> None | Some (a, b) \<Rightarrow> Some (c # a, b)))"

fun split_dot :: "string \<Rightarrow> string list" where
  "split_dot [] = [[]]"
| "split_dot (c # cs) =
     (if c = CHR ''.'' then [] # split_dot cs
      else (case split_dot cs of [] \<Rightarrow> [[c]] | seg # segs \<Rightarrow> (c # seg) # segs))"

fun startswith :: "string \<Rightarrow> string \<Rightarrow> bool" where
  "startswith s [] = True"
| "startswith [] (c # p) = False"
| "startswith (a # s) (c # p) = (a = c \<and> startswith s p)"

fun contains_sub :: "string \<Rightarrow> string \<Rightarrow> bool" where
  "contains_sub [] p = (p = [])"
| "contains_sub (a # s) p = (startswith (a # s) p \<or> contains_sub s p)"

text \<open>\<^verbatim>\<open>'%s.%s' % (base, field) if base else field\<close>\<close>

definition join_base :: "string \<Rightarrow> string \<Rightarrow> string" where
  "join_base base field = (if base \<noteq> [] then base @ ''.'' @ field else field)"

text \<open>
  \<^verbatim>\<open>d[k] = v\<close> is \<^const>\<open>AList.update\<close> (in place when the key is there, at the end
  otherwise), \<^verbatim>\<open>del d[k]\<close> is \<^const>\<open>AList.delete\<close>, \<^verbatim>\<open>d.get(k, default)\<close> is \<open>dict_get\<close>.
  On a value that is not a dictionary \<^verbatim>\<open>.get\<close> raises \<^verbatim>\<open>AttributeError\<close>.
\<close>

definition dict_get :: "doc \<Rightarrow> string \<Rightarrow> jv \<Rightarrow> jv" where
  "dict_get d k dflt = (case map_of d k of None \<Rightarrow> dflt | Some v \<Rightarrow> v)"

fun py_get :: "jv \<Rightarrow> string \<Rightarrow> jv \<Rightarrow> error + jv" where
  "py_get (JDict d) k dflt = Inr (dict_get d k dflt)"
| "py_get _ k dflt = Inl AttributeError"

text \<open>\<^verbatim>\<open>k in x\<close> for a text \<open>k\<close>, and \<^verbatim>\<open>x[k]\<close>.\<close>

fun py_contains :: "jv \<Rightarrow> string \<Rightarrow> error + bool" where
  "py_contains (JDict d) k = Inr (k \<in> set (map fst d))"
| "py_contains (JList xs) k = Inr (list_ex (\<lambda>x. py_eq x (JStr k)) xs)"
| "py_contains (JStr s) k = Inr (contains_sub s k)"
| "py_contains _ k = Inl TypeError"

fun py_getitem :: "jv \<Rightarrow> string \<Rightarrow> error + jv" where
  "py_getitem (JDict d) k = (case map_of d k of None \<Rightarrow> Inl KeyError | Some v \<Rightarrow> Inr v)"
| "py_getitem _ k = Inl TypeError"

text \<open>What \<^verbatim>\<open>for e in x\<close> runs over; \<open>None\<close> when \<open>x\<close> has no \<^verbatim>\<open>__iter__\<close>.\<close>

fun py_iter :: "jv \<Rightarrow> jv list option" where
  "py_iter (JList xs) = Some xs"
| "py_iter (JDict d) = Some (map (\<lambda>(k, v). JStr k) d)"
| "py_iter (JStr s) = Some (map (\<lambda>c. JStr [c]) s)"
| "py_iter (JBytes bs) = Some (map (\<lambda>b. JInt (uint b)) bs)"
| "py_iter _ = None"

section \<open>TinyDB queries\<close>

text \<open>
  A TinyDB query is a test on a document. \<^verbatim>\<open>Query().a.b\<close> carries the path \<open>[a, b]\<close>; a
  test built on it first resolves the path by subscription, and is false when that raises
  \<^verbatim>\<open>KeyError\<close> or \<^verbatim>\<open>TypeError\<close>:
  \<^verbatim>\<open>
  def runner(value):
      try:
          for part in self._path:
              value = value[part]
      except (KeyError, TypeError):
          return False
      else:
          return test(value)
  \<close>
  The test itself is outside the \<^verbatim>\<open>try\<close>: what it raises reaches the caller.
\<close>

type_synonym query = "jv \<Rightarrow> error + bool"

fun resolve :: "string list \<Rightarrow> jv \<Rightarrow> jv option" where
  "resolve [] v = Some v"
| "resolve (p # ps) (JDict d) = (case map_of d p of None \<Rightarrow> None | Some w \<Rightarrow> resolve ps w)"
| "resolve (p # ps) _ = None"

definition prepare_test :: "(jv \<Rightarrow> error + bool) \<Rightarrow> string list \<Rightarrow> query" where
  "prepare_test test path value =
     (case resolve path value of None \<Rightarrow> Inr False | Some v \<Rightarrow> test v)"

text \<open>\<^verbatim>\<open>any(cond(e) for e in value)\<close> and \<^verbatim>\<open>all(cond(e) for e in value)\<close> stop at the first
  element that decides.\<close>

fun py_any :: "(jv \<Rightarrow> error + bool) \<Rightarrow> jv list \<Rightarrow> error + bool" where
  "py_any cond [] = Inr False"
| "py_any cond (e # es) =
     (case cond e of Inl err \<Rightarrow> Inl err | Inr True \<Rightarrow> Inr True | Inr False \<Rightarrow> py_any cond es)"

fun py_all :: "(jv \<Rightarrow> error + bool) \<Rightarrow> jv list \<Rightarrow> error + bool" where
  "py_all cond [] = Inr True"
| "py_all cond (e # es) =
     (case cond e of Inl err \<Rightarrow> Inl err | Inr False \<Rightarrow> Inr False | Inr True \<Rightarrow> py_all cond es)"

definition flt_empty :: query where
  "flt_empty = prepare_test (\<lambda>_. Inr True) []"

definition q_eq :: "string list \<Rightarrow> jv \<Rightarrow> query" where
  "q_eq path rhs = prepare_test (\<lambda>value. Inr (py_eq value rhs)) path"

definition q_ne :: "string list \<Rightarrow> jv \<Rightarrow> query" where
  "q_ne path rhs = prepare_test (\<lambda>value. Inr (\<not> py_eq value rhs)) path"

definition q_gt :: "string list \<Rightarrow> jv \<Rightarrow> query" where
  "q_gt path rhs = prepare_test (\<lambda>value. py_lt rhs value) path"

definition q_exists :: "string list \<Rightarrow> query" where
  "q_exists path = prepare_test (\<lambda>_. Inr True) path"

definition q_any :: "string list \<Rightarrow> query \<Rightarrow> query" where
  "q_any path cond =
     prepare_test (\<lambda>value. case py_iter value of None \<Rightarrow> Inr False
                            | Some es \<Rightarrow> py_any cond es) path"

definition q_all :: "string list \<Rightarrow> query \<Rightarrow> query" where
  "q_all path cond =
     prepare_test (\<lambda>value. case py_iter value of None \<Rightarrow> Inr False
                            | Some es \<Rightarrow> py_all cond es) path"

definition q_and :: "query \<Rightarrow> query \<Rightarrow> query" where
  "q_and c1 c2 value =
     (case c1 value of Inl e \<Rightarrow> Inl e | Inr False \<Rightarrow> Inr False | Inr True \<Rightarrow> c2 value)"

definition q_or :: "query \<Rightarrow> query \<Rightarrow> query" where
  "q_or c1 c2 value =
     (case c1 value of Inl e \<Rightarrow> Inl e | Inr True \<Rightarrow> Inr True | Inr False \<Rightarrow> c2 value)"

definition q_not :: "query \<Rightarrow> query" where
  "q_not c value = (case c value of Inl e \<Rightarrow> Inl e | Inr b \<Rightarrow> Inr (\<not> b))"

text \<open>
  \<^verbatim>\<open>getattr(q, name)\<close> on a query \<open>q\<close> extends the path of \<open>q\<close> by \<open>name\<close>: that is
  \<^verbatim>\<open>Query.__getattr__\<close>, which Python calls only when \<open>q\<close> has no attribute of that name.
  When it has one (the methods \<^verbatim>\<open>exists\<close>, \<^verbatim>\<open>any\<close>, \<^verbatim>\<open>test\<close>, ..., and what every Python
  object has), \<^verbatim>\<open>getattr\<close> returns that attribute, which is not a query. Which names these
  are depends on the versions of TinyDB and Python: the test \<open>query_attr\<close> on names is a
  parameter of the embedding.

  A condition is a query or, \<open>None\<close> here, a value that is not one. On an attribute,
  \<^verbatim>\<open>getattr(q, key) == value\<close> is Python's comparison of the attribute with the value, a
  \<^verbatim>\<open>bool\<close>. \<^verbatim>\<open>cond1 & cond2\<close> is a \<^verbatim>\<open>bool\<close> on two of them, raises \<^verbatim>\<open>TypeError\<close> on a
  \<^verbatim>\<open>bool\<close> and a query (no operand supports it) and \<^verbatim>\<open>AttributeError\<close> on a query and a
  \<^verbatim>\<open>bool\<close> (\<^verbatim>\<open>QueryImpl.__and__\<close> reads \<^verbatim>\<open>other.hashval\<close>). TinyDB calls the condition it
  is given on every document it tests; a \<^verbatim>\<open>bool\<close> is not callable and the call raises
  \<^verbatim>\<open>TypeError\<close>.
\<close>

type_synonym cond = "query option"

definition getattr_eq :: "(string \<Rightarrow> bool) \<Rightarrow> string \<Rightarrow> jv \<Rightarrow> cond" where
  "getattr_eq query_attr key rhs = (if query_attr key then None else Some (q_eq [key] rhs))"

fun cond_and :: "cond \<Rightarrow> cond \<Rightarrow> error + cond" where
  "cond_and (Some c1) (Some c2) = Inr (Some (q_and c1 c2))"
| "cond_and None None = Inr None"
| "cond_and None (Some c2) = Inl TypeError"
| "cond_and (Some c1) None = Inl AttributeError"

definition call_cond :: "cond \<Rightarrow> query" where
  "call_cond c = (case c of Some q \<Rightarrow> q | None \<Rightarrow> (\<lambda>value. Inl TypeError))"

text \<open>
  Modelled from the spec: \<^verbatim>\<open>flt_and\<close>, a method of the base class \<^verbatim>\<open>DB\<close> that \<^verbatim>\<open>tiny.py\<close>
  inherits and does not define. The spec has the match key as the "conjunction of
  equality predicates over all remaining fields": \<^verbatim>\<open>flt_and(*args)\<close> joins its arguments,
  from the left, with \<^verbatim>\<open>_flt_and(cond1, cond2) = cond1 & cond2\<close> of \<^verbatim>\<open>tiny.py\<close>, and is
  \<^verbatim>\<open>flt_empty\<close> when there is none.
\<close>

fun reduce_and :: "cond \<Rightarrow> cond list \<Rightarrow> error + cond" where
  "reduce_and c [] = Inr c"
| "reduce_and c (c' # cs) =
     (case cond_and c c' of Inl e \<Rightarrow> Inl e | Inr both \<Rightarrow> reduce_and both cs)"

definition flt_and :: "cond list \<Rightarrow> error + cond" where
  "flt_and args = (case args of [] \<Rightarrow> Inr (Some flt_empty) | c # cs \<Rightarrow> reduce_and c cs)"

section \<open>Port search\<close>

text \<open>
  \<^verbatim>\<open>
  def searchport(port, protocol='tcp', state='open', neg=False):
      q = Query()
      if port == "host":
          res = (q.port > 0) if neg else (q.port == -1)
      else:
          res = (q.port == port) & (q.protocol == protocol)
          if neg:
              return q.ports.any(res & (q.state_state != state)) | \
                  q.ports.all(~res)
          res &= q.state_state == state
      return q.ports.any(res)
  \<close>
\<close>

definition searchport :: "jv \<Rightarrow> jv \<Rightarrow> jv \<Rightarrow> bool \<Rightarrow> query" where
  "searchport port protocol state neg =
     (if py_eq port (JStr ''host'') then
        q_any [''ports''] (if neg then q_gt [''port''] (JInt 0) else q_eq [''port''] (JInt (- 1)))
      else
        (let res = q_and (q_eq [''port''] port) (q_eq [''protocol''] protocol) in
         if neg then
           q_or (q_any [''ports''] (q_and res (q_ne [''state_state''] state)))
                (q_all [''ports''] (q_not res))
         else q_any [''ports''] (q_and res (q_eq [''state_state''] state))))"

text \<open>The elementwise negation the negated search is not: every port fails the positive
  test, state included.\<close>

definition searchport_elementwise_neg :: "jv \<Rightarrow> jv \<Rightarrow> jv \<Rightarrow> query" where
  "searchport_elementwise_neg port protocol state =
     q_all [''ports'']
       (q_not (q_and (q_and (q_eq [''port''] port) (q_eq [''protocol''] protocol))
                     (q_eq [''state_state''] state)))"

text \<open>A port entry has the value \<open>v\<close> at field \<open>k\<close>; it has a value other than \<open>v\<close> there.\<close>

definition field_is :: "jv \<Rightarrow> string \<Rightarrow> jv \<Rightarrow> bool" where
  "field_is p k v = (case resolve [k] p of None \<Rightarrow> False | Some w \<Rightarrow> py_eq w v)"

definition field_differs :: "jv \<Rightarrow> string \<Rightarrow> jv \<Rightarrow> bool" where
  "field_differs p k v = (case resolve [k] p of None \<Rightarrow> False | Some w \<Rightarrow> \<not> py_eq w v)"

text \<open>
  A sample instance of the helpers, for evaluating the codec on concrete input: it knows
  the address \<^verbatim>\<open>192.168.0.1\<close> (packed in the IPv4-mapped range) and nothing else; a
  \<^verbatim>\<open>datetime\<close> at position \<open>d\<close> has time stamp \<open>d\<close>.
\<close>

definition sample_packed :: "byte list" where
  "sample_packed = [0, 0, 0, 0, 0, 0, 0, 0, 0, 0, 255, 255, 192, 168, 0, 1]"

definition sample_utils :: utils where
  "sample_utils =
     \<lparr> ip2bin = (\<lambda>a. if a = JStr ''192.168.0.1'' then Inr sample_packed else Inl SocketError),
       bin2ip = (\<lambda>bs. if bs = sample_packed then Inr ''192.168.0.1'' else Inl SocketError),
       datetime2timestamp = JInt,
       all2datetime = (\<lambda>v. Inl ValueError) \<rparr>"

text \<open>A sample instance of \<open>query_attr\<close>: the methods that TinyDB documents for a query.\<close>

definition sample_attr :: "string \<Rightarrow> bool" where
  "sample_attr name =
     (name \<in> set [''exists'', ''matches'', ''search'', ''test'', ''any'', ''all'', ''one_of''])"

text \<open>A port entry with the given protocol, number and state; the host of the scenario;
  a host whose only port records no state.\<close>

definition port_entry :: "jv \<Rightarrow> string \<Rightarrow> int \<Rightarrow> string \<Rightarrow> bool" where
  "port_entry p proto n st =
     (field_is p ''protocol'' (JStr proto) \<and> field_is p ''port'' (JInt n)
      \<and> field_is p ''state_state'' (JStr st))"

definition scenario_host :: doc where
  "scenario_host =
     [(''addr'', JInt 0xffffc0a80001),
      (''ports'', JList
         [JDict [(''protocol'', JStr ''tcp''), (''port'', JInt 80), (''state_state'', JStr ''open'')],
          JDict [(''protocol'', JStr ''tcp''), (''port'', JInt 22), (''state_state'', JStr ''closed'')]])]"

definition stateless_port_host :: doc where
  "stateless_port_host =
     [(''ports'', JList [JDict [(''protocol'', JStr ''tcp''), (''port'', JInt 80)]])]"

text \<open>A host record without a \<^verbatim>\<open>ports\<close> entry, as \<^verbatim>\<open>store_host\<close> and \<^verbatim>\<open>_get\<close> expect some to
  be (they read \<^verbatim>\<open>host.get('ports', [])\<close>), and the same host with an empty array.\<close>

definition portless_host :: doc where
  "portless_host = [(''addr'', JInt 0xffffc0a80001), (''state'', JStr ''up'')]"

definition empty_ports_host :: doc where
  "empty_ports_host = portless_host @ [(''ports'', JList [])]"

section \<open>Field values and field existence\<close>

text \<open>
  \<^verbatim>\<open>list_fields\<close>, the table of the dotted paths that hold arrays, is a class attribute
  set outside \<^verbatim>\<open>tiny.py\<close>: it is a parameter here.

  \<^verbatim>\<open>_generate_field_values(record, field, base, countfield, countval)\<close> is a generator; its
  result is the list of what it yields, or the exception that ends it. It splits \<^verbatim>\<open>field\<close>
  at its first dot and recurses on the rest, so the recursion is on the length of
  \<^verbatim>\<open>field\<close>.
\<close>

lemma split1_shorter: "split1 s = Some (a, b) \<Longrightarrow> length b < length s"
  by (induction s arbitrary: a b) (auto split: if_splits option.splits)

text \<open>One emitted element: the value, and its weight when a count is asked for.\<close>

type_synonym emitted = "jv \<times> jv option"

definition weigh :: "jv \<Rightarrow> string option \<Rightarrow> jv \<Rightarrow> jv list \<Rightarrow> error + emitted list" where
  "weigh record countfield countval vals =
     (if countval \<noteq> JNone then Inr (map (\<lambda>val. (val, Some countval)) vals)
      else (case countfield of
              Some cf \<Rightarrow>
                (if vals = [] then Inr []
                 else (case py_get record cf (JInt 1) of
                         Inl e \<Rightarrow> Inl e
                       | Inr c \<Rightarrow> Inr (map (\<lambda>val. (val, Some c)) vals)))
            | None \<Rightarrow> Inr (map (\<lambda>val. (val, None)) vals)))"

definition next_count :: "jv \<Rightarrow> string \<Rightarrow> string option \<Rightarrow> jv \<Rightarrow> error + (string option \<times> jv)" where
  "next_count record cur countfield countval =
     (case countfield of
        None \<Rightarrow> Inr (None, countval)
      | Some cf \<Rightarrow>
          (if startswith cf (cur @ ''.'') then
             (case split1 cf of None \<Rightarrow> Inl IndexError | Some (a, b) \<Rightarrow> Inr (Some b, countval))
           else (case py_get record cf (JInt 1) of
                   Inl e \<Rightarrow> Inl e
                 | Inr c \<Rightarrow> Inr (None, c))))"

function generate_field_values ::
    "string list \<Rightarrow> jv \<Rightarrow> string \<Rightarrow> string \<Rightarrow> string option \<Rightarrow> jv \<Rightarrow> error + emitted list"
  and generate_field_values_each ::
    "string list \<Rightarrow> jv list \<Rightarrow> string \<Rightarrow> string \<Rightarrow> string option \<Rightarrow> jv \<Rightarrow> error + emitted list"
where
  "generate_field_values list_fields record field base countfield countval =
     (case split1 field of
        None \<Rightarrow>
          (case py_contains record field of
             Inl e \<Rightarrow> Inl e
           | Inr False \<Rightarrow> Inr []
           | Inr True \<Rightarrow>
               (case py_getitem record field of
                  Inl e \<Rightarrow> Inl e
                | Inr v \<Rightarrow>
                    (if join_base base field \<in> set list_fields then
                       (case py_iter v of
                          None \<Rightarrow> Inl TypeError
                        | Some vals \<Rightarrow> weigh record countfield countval vals)
                     else weigh record countfield countval [v])))
      | Some (cur, rest) \<Rightarrow>
          (case py_contains record cur of
             Inl e \<Rightarrow> Inl e
           | Inr False \<Rightarrow> Inr []
           | Inr True \<Rightarrow>
               (case next_count record cur countfield countval of
                  Inl e \<Rightarrow> Inl e
                | Inr (countfield', countval') \<Rightarrow>
                    (case py_getitem record cur of
                       Inl e \<Rightarrow> Inl e
                     | Inr sub \<Rightarrow>
                         (if join_base base cur \<in> set list_fields then
                            (case py_iter sub of
                               None \<Rightarrow> Inl TypeError
                             | Some subrecs \<Rightarrow>
                                 generate_field_values_each list_fields subrecs rest
                                   (join_base base cur) countfield' countval')
                          else generate_field_values list_fields sub rest
                                 (join_base base cur) countfield' countval')))))"
| "generate_field_values_each list_fields [] field base countfield countval = Inr []"
| "generate_field_values_each list_fields (subrec # subrecs) field base countfield countval =
     (case generate_field_values list_fields subrec field base countfield countval of
        Inl e \<Rightarrow> Inl e
      | Inr vals \<Rightarrow>
          (case generate_field_values_each list_fields subrecs field base countfield countval of
             Inl e \<Rightarrow> Inl e
           | Inr others \<Rightarrow> Inr (vals @ others)))"
  by pat_completeness auto
termination
  by (relation "measures
        [\<lambda>x. case x of Inl (lf, r, f, b, cf, cv) \<Rightarrow> length f | Inr (lf, rs, f, b, cf, cv) \<Rightarrow> length f,
         \<lambda>x. case x of Inl (lf, r, f, b, cf, cv) \<Rightarrow> 0 | Inr (lf, rs, f, b, cf, cv) \<Rightarrow> Suc (length rs)]")
     (auto dest: split1_shorter)

text \<open>
  \<^verbatim>\<open>
  def _search_field_exists(self, field, base="", baseq=None):
      if baseq is None:
          baseq = Query()
      if '.' not in field:
          return getattr(baseq, field).exists()
      field, nextfields = field.split('.', 1)
      if base:
          fullfield = "%s.%s" % (base, field)
      else:
          fullfield = field
      if fullfield in self.list_fields:
          return getattr(baseq, field).any(
              self._search_field_exists(nextfields, base=fullfield)
          )
      return self._search_field_exists(nextfields, base=fullfield,
                                       baseq=getattr(baseq, field))
  \<close>
  \<^verbatim>\<open>baseq\<close> is the path of the query built so far, empty for \<^verbatim>\<open>Query()\<close>. The method builds
  a query and may raise while it does: when a segment names an attribute of the query,
  \<^verbatim>\<open>getattr(baseq, field)\<close> is that attribute, and the \<^verbatim>\<open>.exists\<close>, \<^verbatim>\<open>.any\<close> or next segment
  asked of it raises \<^verbatim>\<open>AttributeError\<close> (before the argument of \<^verbatim>\<open>.any\<close> is evaluated). The
  embedding does not follow the attributes of such an attribute.
\<close>

function search_field_exists ::
    "(string \<Rightarrow> bool) \<Rightarrow> string list \<Rightarrow> string \<Rightarrow> string \<Rightarrow> string list \<Rightarrow> error + query" where
  "search_field_exists query_attr list_fields field base baseq =
     (case split1 field of
        None \<Rightarrow>
          (if query_attr field then Inl AttributeError else Inr (q_exists (baseq @ [field])))
      | Some (fld, nextfields) \<Rightarrow>
          (if query_attr fld then Inl AttributeError
           else if join_base base fld \<in> set list_fields then
             (case search_field_exists query_attr list_fields nextfields (join_base base fld) [] of
                Inl e \<Rightarrow> Inl e
              | Inr cond \<Rightarrow> Inr (q_any (baseq @ [fld]) cond))
           else search_field_exists query_attr list_fields nextfields (join_base base fld)
                  (baseq @ [fld])))"
  by pat_completeness auto
termination
  by (relation "measure (\<lambda>(qa, lf, f, b, q). length f)") (auto dest: split1_shorter)

text \<open>
  A segment is absent from a value: a dictionary without that key, a list without that
  text among its elements, a text without that text inside it. A value of another kind
  has no segments, present or absent.

  A record lacks a dotted path when walking the path from the record reaches a value from
  which the next segment is absent. The walk goes through dictionaries; at a path of
  \<^verbatim>\<open>list_fields\<close> the value is run over as Python runs over it (the elements of a list,
  the keys of a dictionary, the characters of a text) and every element lacks the rest of
  the path.
\<close>

fun absent :: "jv \<Rightarrow> string \<Rightarrow> bool" where
  "absent (JDict d) k = (map_of d k = None)"
| "absent (JList xs) k = (\<not> list_ex (\<lambda>x. py_eq x (JStr k)) xs)"
| "absent (JStr s) k = (\<not> contains_sub s k)"
| "absent _ k = False"

function lacks :: "string list \<Rightarrow> jv \<Rightarrow> string \<Rightarrow> string \<Rightarrow> bool" where
  "lacks list_fields record field base =
     (case split1 field of
        None \<Rightarrow> absent record field
      | Some (cur, rest) \<Rightarrow>
          (if absent record cur then True
           else
             (case record of
                JDict d \<Rightarrow>
                  (case map_of d cur of
                     None \<Rightarrow> False
                   | Some sub \<Rightarrow>
                       (if join_base base cur \<in> set list_fields then
                          (case py_iter sub of
                             None \<Rightarrow> False
                           | Some subrecs \<Rightarrow>
                               list_all (\<lambda>subrec. lacks list_fields subrec rest (join_base base cur))
                                 subrecs)
                        else lacks list_fields sub rest (join_base base cur)))
              | _ \<Rightarrow> False)))"
  by pat_completeness auto
termination
  by (relation "measure (\<lambda>(lf, r, f, b). length f)") (auto dest: split1_shorter)

text \<open>\<^verbatim>\<open>self._search_field_exists(field)\<close>, built and then tested on a record.\<close>

definition field_exists_on ::
    "(string \<Rightarrow> bool) \<Rightarrow> string list \<Rightarrow> string \<Rightarrow> jv \<Rightarrow> error + bool" where
  "field_exists_on query_attr list_fields field record =
     (case search_field_exists query_attr list_fields field [] [] of
        Inl e \<Rightarrow> Inl e
      | Inr cond \<Rightarrow> cond record)"


text \<open>A host with two port entries, neither with a service name.\<close>

definition two_ports_host :: jv where
  "two_ports_host = JDict [(''ports'', JList [JDict [(''port'', JInt 80)], JDict []])]"

section \<open>Top values\<close>

text \<open>
  \<^verbatim>\<open>collections.Counter\<close> is a dictionary from the counted values to their counts, in the
  order in which the values were first seen; \<open>eq\<close> is the equality of its keys.
  \<^verbatim>\<open>res[val] += count\<close> adds to the count of a key that is there and appends a key that is
  not. \<^verbatim>\<open>most_common(n)\<close> is \<^verbatim>\<open>sorted(items, key=itemgetter(1), reverse=True)\<close>, cut to the
  first \<open>n\<close> items when \<open>n\<close> is given (\<^verbatim>\<open>heapq.nlargest\<close>, empty for \<open>n \<le> 0\<close>); the sort is
  stable, so equal counts stay in first-seen order. The counts are integers when
  \<^verbatim>\<open>Counter\<close> counts, and numbers of any kind when they are summed.
\<close>

fun counter_add :: "('k \<Rightarrow> 'k \<Rightarrow> bool) \<Rightarrow> 'k \<Rightarrow> 'n::plus \<Rightarrow> ('k \<times> 'n) list \<Rightarrow> ('k \<times> 'n) list" where
  "counter_add eq val cnt [] = [(val, cnt)]"
| "counter_add eq val cnt ((k, n) # items) =
     (if eq k val then (k, n + cnt) # items else (k, n) # counter_add eq val cnt items)"

definition counter :: "('k \<Rightarrow> 'k \<Rightarrow> bool) \<Rightarrow> 'k list \<Rightarrow> ('k \<times> int) list" where
  "counter eq vals = foldl (\<lambda>res val. counter_add eq val 1 res) [] vals"

definition most_common ::
    "int option \<Rightarrow> ('k \<times> 'n::linordered_ab_group_add) list \<Rightarrow> ('k \<times> 'n) list" where
  "most_common n items =
     (case n of
        None \<Rightarrow> sort_key (\<lambda>(val, cnt). - cnt) items
      | Some k \<Rightarrow> take (nat k) (sort_key (\<lambda>(val, cnt). - cnt) items))"

text \<open>
  Both \<^verbatim>\<open>topvalues\<close> methods end in
  \<^verbatim>\<open>
  return [{'_id': _outputproc(val), 'count': count}
          for val, count in Counter(_extractor(flt & _newflt(field), field)).most_common(topnbr)]
  \<close>
  \<^verbatim>\<open>TinyDBActive.topvalues\<close> has no other \<^verbatim>\<open>return\<close>: its branches on the pseudo-field
  only choose \<^verbatim>\<open>_newflt\<close>, \<^verbatim>\<open>_extractor\<close> and \<^verbatim>\<open>_outputproc\<close>. \<open>topvalues_rank\<close> is that
  statement, on the sequence \<open>emitted\<close> that the chosen extractor yields on the records
  that match; an entry \<^verbatim>\<open>{'_id': v, 'count': c}\<close> is the pair \<open>(v, c)\<close>.
\<close>

definition topvalues_rank ::
    "('k \<Rightarrow> 'k \<Rightarrow> bool) \<Rightarrow> ('k \<Rightarrow> 'o) \<Rightarrow> 'k list \<Rightarrow> int option \<Rightarrow> ('o \<times> int) list" where
  "topvalues_rank eq outputproc emitted topnbr =
     map (\<lambda>(val, cnt). (outputproc val, cnt)) (most_common topnbr (counter eq emitted))"

text \<open>
  \<^verbatim>\<open>TinyDBPassive.topvalues\<close>. With \<^verbatim>\<open>distinct\<close> its extractors yield bare values and
  \<^verbatim>\<open>Counter\<close> counts them (a weight is not looked at); without, they yield \<^verbatim>\<open>(val, count)\<close>
  pairs and \<^verbatim>\<open>res[val] += count\<close> sums them, from 0: a count that is not a number raises
  \<^verbatim>\<open>TypeError\<close>. Lists and dictionaries cannot be keys. A count of the result is the number
  it denotes.
  \<open>passive_rank\<close> is the end of the method, on what the extractor yields.
  \<open>passive_extractor\<close> is the extractor of every field but \<^verbatim>\<open>net\<close>, run on the records
  \<open>recs\<close> that \<^verbatim>\<open>self._get(flt & _newflt(field), ...)\<close> streams, and \<open>topvalues_passive\<close> the
  method on such a field.
\<close>

fun hashable :: "jv \<Rightarrow> bool" where
  "hashable (JList xs) = False"
| "hashable (JDict d) = False"
| "hashable _ = True"

fun passive_extractor :: "string list \<Rightarrow> string \<Rightarrow> string option \<Rightarrow> jv list \<Rightarrow> error + emitted list" where
  "passive_extractor list_fields field countfield [] = Inr []"
| "passive_extractor list_fields field countfield (rec # recs) =
     (case generate_field_values list_fields rec field [] countfield JNone of
        Inl e \<Rightarrow> Inl e
      | Inr vals \<Rightarrow>
          (case passive_extractor list_fields field countfield recs of
             Inl e \<Rightarrow> Inl e
           | Inr others \<Rightarrow> Inr (vals @ others)))"

text \<open>\<^verbatim>\<open>for val, count in ...\<close> unpacks what was yielded: a pair as it is, a bare value when
  it iterates over exactly two elements.\<close>

definition unpack_pair :: "emitted \<Rightarrow> error + (jv \<times> jv)" where
  "unpack_pair x =
     (case x of
        (val, Some cnt) \<Rightarrow> Inr (val, cnt)
      | (val, None) \<Rightarrow>
          (case py_iter val of
             None \<Rightarrow> Inl TypeError
           | Some [a, b] \<Rightarrow> Inr (a, b)
           | Some _ \<Rightarrow> Inl ValueError))"

fun sum_counts :: "emitted list \<Rightarrow> (jv \<times> rat) list \<Rightarrow> error + (jv \<times> rat) list" where
  "sum_counts [] res = Inr res"
| "sum_counts (x # xs) res =
     (case unpack_pair x of
        Inl e \<Rightarrow> Inl e
      | Inr (val, cnt) \<Rightarrow>
          (if \<not> hashable val then Inl TypeError
           else (case py_number cnt of
                   None \<Rightarrow> Inl TypeError
                 | Some n \<Rightarrow> sum_counts xs (counter_add py_eq val n res))))"

definition passive_rank :: "bool \<Rightarrow> emitted list \<Rightarrow> int option \<Rightarrow> error + (jv \<times> rat) list" where
  "passive_rank distinct_events emitted topnbr =
     (if distinct_events then
        (if list_all (\<lambda>(val, w). hashable val) emitted
         then Inr (map (\<lambda>(val, cnt). (val, of_int cnt))
                     (topvalues_rank py_eq (\<lambda>val. val) (map fst emitted) topnbr))
         else Inl TypeError)
      else
        (case sum_counts emitted [] of
           Inl e \<Rightarrow> Inl e
         | Inr res \<Rightarrow> Inr (map (\<lambda>(val, cnt). (val, cnt)) (most_common topnbr res))))"

definition topvalues_passive ::
    "string list \<Rightarrow> string \<Rightarrow> bool \<Rightarrow> int option \<Rightarrow> jv list \<Rightarrow> error + (jv \<times> rat) list" where
  "topvalues_passive list_fields field distinct_events topnbr recs =
     (case passive_extractor list_fields field
             (if distinct_events then None else Some ''count'') recs of
        Inl e \<Rightarrow> Inl e
      | Inr emitted \<Rightarrow> passive_rank distinct_events emitted topnbr)"

text \<open>Five passive events, for evaluating the ranking.\<close>

definition dns_events :: "jv list" where
  "dns_events =
     [JDict [(''value'', JStr ''a.example''), (''count'', JInt 2)],
      JDict [(''value'', JStr ''b.example''), (''count'', JInt 7)],
      JDict [(''value'', JStr ''a.example''), (''count'', JInt 1)],
      JDict [(''value'', JStr ''c.example'')],
      JDict [(''value'', JStr ''a.example''), (''count'', JInt 1)]]"

section \<open>The sort comparator of \<^verbatim>\<open>get\<close>\<close>

text \<open>
  \<^verbatim>\<open>
  def _cmp(v1, v2):
      for (k, o) in sort:
          f1 = v1
          f2 = v2
          for sk in k.split('.'):
              f1 = (f1 or {}).get(sk)
              f2 = (f2 or {}).get(sk)
          if f1 == f2:
              continue
          if f1 is None:
              # None is lower than anything
              return -o
          if f2 is None:
              return o
          if f1 < f2:
              return -o
          return o
      return 0
  result = sorted(result, key=cmp_to_key(_cmp))
  \<close>
  \<^verbatim>\<open>(f or {}).get(sk)\<close> is \<^verbatim>\<open>None\<close> when \<open>f\<close> is false (\<^verbatim>\<open>None\<close>, \<open>0\<close>, empty), the entry of a
  dictionary \<open>f\<close> or \<^verbatim>\<open>None\<close> when it has none, and raises \<^verbatim>\<open>AttributeError\<close> when \<open>f\<close> is
  any other value.
\<close>

definition key_step :: "jv \<Rightarrow> string \<Rightarrow> error + jv" where
  "key_step f sk = (if truthy f then py_get f sk JNone else Inr JNone)"

fun key_values :: "string list \<Rightarrow> jv \<Rightarrow> jv \<Rightarrow> error + (jv \<times> jv)" where
  "key_values [] f1 f2 = Inr (f1, f2)"
| "key_values (sk # sks) f1 f2 =
     (case key_step f1 sk of
        Inl e \<Rightarrow> Inl e
      | Inr g1 \<Rightarrow>
          (case key_step f2 sk of
             Inl e \<Rightarrow> Inl e
           | Inr g2 \<Rightarrow> key_values sks g1 g2))"

fun cmp :: "(string \<times> int) list \<Rightarrow> jv \<Rightarrow> jv \<Rightarrow> error + int" where
  "cmp [] v1 v2 = Inr 0"
| "cmp ((k, dir) # srt) v1 v2 =
     (case key_values (split_dot k) v1 v2 of
        Inl e \<Rightarrow> Inl e
      | Inr (f1, f2) \<Rightarrow>
          (if py_eq f1 f2 then cmp srt v1 v2
           else if f1 = JNone then Inr (- dir)
           else if f2 = JNone then Inr dir
           else (case py_lt f1 f2 of
                   Inl e \<Rightarrow> Inl e
                 | Inr True \<Rightarrow> Inr (- dir)
                 | Inr False \<Rightarrow> Inr dir)))"

text \<open>
  \<^verbatim>\<open>sorted(result, key=cmp_to_key(c))\<close> is Python's stable sort, with \<open>a < b\<close> read as
  \<open>c(a, b) < 0\<close>. It is embedded as the stable insertion sort: an element moves behind the
  elements that come later in the input and are smaller. Every stable sort returns this
  list when \<open>c\<close> is a consistent order on the input; an exception of \<open>c\<close> ends the sort.
\<close>

fun insort_cmp :: "('a \<Rightarrow> 'a \<Rightarrow> error + int) \<Rightarrow> 'a \<Rightarrow> 'a list \<Rightarrow> error + 'a list" where
  "insort_cmp c x [] = Inr [x]"
| "insort_cmp c x (y # ys) =
     (case c y x of
        Inl e \<Rightarrow> Inl e
      | Inr r \<Rightarrow>
          (if r < 0 then
             (case insort_cmp c x ys of Inl e \<Rightarrow> Inl e | Inr zs \<Rightarrow> Inr (y # zs))
           else Inr (x # y # ys)))"

fun sorted_cmp :: "('a \<Rightarrow> 'a \<Rightarrow> error + int) \<Rightarrow> 'a list \<Rightarrow> error + 'a list" where
  "sorted_cmp c [] = Inr []"
| "sorted_cmp c (x # xs) =
     (case sorted_cmp c xs of Inl e \<Rightarrow> Inl e | Inr ys \<Rightarrow> insort_cmp c x ys)"

text \<open>The sorting step of \<^verbatim>\<open>get\<close>: no sort when \<^verbatim>\<open>sort\<close> is empty or \<^verbatim>\<open>None\<close>.\<close>

definition get_sorted :: "(string \<times> int) list \<Rightarrow> jv list \<Rightarrow> error + jv list" where
  "get_sorted srt result = (if srt = [] then Inr result else sorted_cmp (cmp srt) result)"

text \<open>Two records tie on a key: both look-ups return, with equal values.\<close>

definition ties :: "string \<Rightarrow> jv \<Rightarrow> jv \<Rightarrow> bool" where
  "ties k v1 v2 =
     (case key_values (split_dot k) v1 v2 of Inl e \<Rightarrow> False | Inr (f1, f2) \<Rightarrow> py_eq f1 f2)"

text \<open>Four records for evaluating the sort: \<open>a\<close> and \<open>d\<close> have the same AS number, \<open>b\<close> has
  none.\<close>

definition rec_a :: jv where "rec_a = JDict [(''name'', JStr ''a''), (''infos'', JDict [(''as_num'', JInt 7)])]"
definition rec_b :: jv where "rec_b = JDict [(''name'', JStr ''b'')]"
definition rec_c :: jv where "rec_c = JDict [(''name'', JStr ''c''), (''infos'', JDict [(''as_num'', JInt 3)])]"
definition rec_d :: jv where "rec_d = JDict [(''name'', JStr ''d''), (''infos'', JDict [(''as_num'', JInt 7)])]"

section \<open>TinyDB tables\<close>

text \<open>
  A TinyDB table is a dictionary from document ids to documents, in insertion order, with
  the last id given out. \<^verbatim>\<open>insert\<close> stores under the next id; \<^verbatim>\<open>search(cond)\<close> tests every
  document and \<^verbatim>\<open>get(cond)\<close> stops at the first match; \<^verbatim>\<open>update(transform, doc_ids=ids)\<close>
  applies a transformation to the documents of the given ids; \<^verbatim>\<open>update(fields, cond)\<close> does
  \<^verbatim>\<open>doc.update(fields)\<close> on every match and returns the ids it touched;
  \<^verbatim>\<open>upsert(doc, cond)\<close> is that update, and an insert when it touched nothing.

  The table is a JSON file (\<^verbatim>\<open>TDB(os.path.join(self.basepath, "%s.json" % self.dbname))\<close>):
  every operation reads the documents from it, and \<^verbatim>\<open>insert\<close> and \<^verbatim>\<open>update\<close> end by writing
  them all back with \<^verbatim>\<open>json.dumps\<close>, which raises \<^verbatim>\<open>TypeError\<close> before anything is written
  when a document holds a value that is not serializable. An operation that raises leaves
  the documents as they were; \<^verbatim>\<open>insert\<close> has taken its id by then, and the last id given
  out stays increased.
\<close>

record tdb =
  docs :: "(nat \<times> doc) list"
  last_id :: nat

definition tdb_empty :: tdb where
  "tdb_empty = \<lparr> docs = [], last_id = 0 \<rparr>"

fun search_docs :: "query \<Rightarrow> (nat \<times> doc) list \<Rightarrow> error + (nat \<times> doc) list" where
  "search_docs cond [] = Inr []"
| "search_docs cond ((i, d) # rest) =
     (case cond (JDict d) of
        Inl e \<Rightarrow> Inl e
      | Inr b \<Rightarrow>
          (case search_docs cond rest of
             Inl e \<Rightarrow> Inl e
           | Inr found \<Rightarrow> Inr (if b then (i, d) # found else found)))"

definition tdb_search :: "tdb \<Rightarrow> query \<Rightarrow> error + (nat \<times> doc) list" where
  "tdb_search t cond = search_docs cond (docs t)"

fun get_doc :: "query \<Rightarrow> (nat \<times> doc) list \<Rightarrow> error + (nat \<times> doc) option" where
  "get_doc cond [] = Inr None"
| "get_doc cond ((i, d) # rest) =
     (case cond (JDict d) of
        Inl e \<Rightarrow> Inl e
      | Inr True \<Rightarrow> Inr (Some (i, d))
      | Inr False \<Rightarrow> get_doc cond rest)"

definition tdb_get :: "tdb \<Rightarrow> query \<Rightarrow> error + (nat \<times> doc) option" where
  "tdb_get t cond = get_doc cond (docs t)"

definition tdb_write :: "tdb \<Rightarrow> (nat \<times> doc) list \<Rightarrow> error + tdb" where
  "tdb_write t ds =
     (if list_all (\<lambda>(i, d). json_serializable (JDict d)) ds then Inr (t\<lparr>docs := ds\<rparr>)
      else Inl TypeError)"

definition tdb_insert :: "tdb \<Rightarrow> doc \<Rightarrow> (error + nat) \<times> tdb" where
  "tdb_insert t d =
     (case tdb_write (t\<lparr>last_id := Suc (last_id t)\<rparr>)
             (AList.update (Suc (last_id t)) d (docs t)) of
        Inl e \<Rightarrow> (Inl e, t\<lparr>last_id := Suc (last_id t)\<rparr>)
      | Inr t' \<Rightarrow> (Inr (Suc (last_id t)), t'))"

fun transform_ids :: "(doc \<Rightarrow> error + doc) \<Rightarrow> nat list \<Rightarrow> (nat \<times> doc) list \<Rightarrow> error + (nat \<times> doc) list" where
  "transform_ids f [] ds = Inr ds"
| "transform_ids f (i # ids) ds =
     (case map_of ds i of
        None \<Rightarrow> Inl KeyError
      | Some d \<Rightarrow>
          (case f d of
             Inl e \<Rightarrow> Inl e
           | Inr d' \<Rightarrow> transform_ids f ids (AList.update i d' ds)))"

definition tdb_update_ids :: "tdb \<Rightarrow> (doc \<Rightarrow> error + doc) \<Rightarrow> nat list \<Rightarrow> error + tdb" where
  "tdb_update_ids t f ids =
     (case transform_ids f ids (docs t) of
        Inl e \<Rightarrow> Inl e
      | Inr ds \<Rightarrow> tdb_write t ds)"

text \<open>\<^verbatim>\<open>d.update(fields)\<close>\<close>

definition dict_update :: "doc \<Rightarrow> doc \<Rightarrow> doc" where
  "dict_update d flds = foldl (\<lambda>acc (k, v). AList.update k v acc) d flds"

fun update_matching :: "doc \<Rightarrow> query \<Rightarrow> (nat \<times> doc) list \<Rightarrow> error + (nat list \<times> (nat \<times> doc) list)" where
  "update_matching flds cond [] = Inr ([], [])"
| "update_matching flds cond ((i, d) # rest) =
     (case cond (JDict d) of
        Inl e \<Rightarrow> Inl e
      | Inr b \<Rightarrow>
          (case update_matching flds cond rest of
             Inl e \<Rightarrow> Inl e
           | Inr (ids, ds) \<Rightarrow>
               Inr (if b then (i # ids, (i, dict_update d flds) # ds) else (ids, (i, d) # ds))))"

text \<open>The result of \<open>tdb_upsert\<close> is the exception raised, if any, and the table after the
  call.\<close>

definition tdb_upsert :: "tdb \<Rightarrow> doc \<Rightarrow> query \<Rightarrow> error option \<times> tdb" where
  "tdb_upsert t d cond =
     (case update_matching d cond (docs t) of
        Inl e \<Rightarrow> (Some e, t)
      | Inr (ids, ds) \<Rightarrow>
          (case tdb_write t ds of
             Inl e \<Rightarrow> (Some e, t)
           | Inr t' \<Rightarrow>
               (if ids \<noteq> [] then (None, t')
                else (case tdb_insert t' d of
                        (Inl e, t'') \<Rightarrow> (Some e, t'')
                      | (Inr doc_id, t'') \<Rightarrow> (None, t'')))))"

section \<open>Scan documents\<close>

text \<open>
  \<^verbatim>\<open>
  def store_scan_doc(self, scan):
      scan = deepcopy(scan)
      _id = scan['_id'] = scan['_id'].decode()
      if self.db_scans.get(Query()._id == _id) is not None:
          raise ValueError("Duplicate entry for id %r" % _id)
      self.db_scans.insert(scan)
      return _id
  \<close>
  \<^verbatim>\<open>bytes.decode\<close> is Python's codec, a parameter \<open>decode\<close>; only a byte string has the
  method. The result is what the call returns or raises, and the table of scan documents
  after it.
\<close>

definition store_scan_doc ::
    "(byte list \<Rightarrow> error + string) \<Rightarrow> tdb \<Rightarrow> doc \<Rightarrow> (error + string) \<times> tdb" where
  "store_scan_doc decode db_scans scan =
     (case map_of scan ''_id'' of
        None \<Rightarrow> (Inl KeyError, db_scans)
      | Some (JBytes raw) \<Rightarrow>
          (case decode raw of
             Inl e \<Rightarrow> (Inl e, db_scans)
           | Inr ident \<Rightarrow>
               (case tdb_get db_scans (q_eq [''_id''] (JStr ident)) of
                  Inl e \<Rightarrow> (Inl e, db_scans)
                | Inr (Some found) \<Rightarrow> (Inl ValueError, db_scans)
                | Inr None \<Rightarrow>
                    (case tdb_insert db_scans (AList.update ''_id'' (JStr ident) scan) of
                       (Inl e, t) \<Rightarrow> (Inl e, t)
                     | (Inr doc_id, t) \<Rightarrow> (Inr ident, t))))
      | Some _ \<Rightarrow> (Inl AttributeError, db_scans))"

text \<open>A decoder for evaluation: the bytes as characters.\<close>

definition ascii_decode :: "byte list \<Rightarrow> error + string" where
  "ascii_decode raw =
     (if list_all (\<lambda>b. b < 128) raw then Inr (map (\<lambda>b. char_of (unat b)) raw)
      else Inl UnicodeError)"

section \<open>Passive records\<close>

text \<open>\<^verbatim>\<open>a + b\<close> (an integer on integers and booleans, a float when a float is added to a
  number), \<^verbatim>\<open>min(a, b)\<close> (\<open>b\<close> when \<open>b < a\<close>, else \<open>a\<close>) and \<^verbatim>\<open>max(a, b)\<close> (\<open>b\<close> when
  \<open>b > a\<close>, else \<open>a\<close>).\<close>

fun py_add :: "jv \<Rightarrow> jv \<Rightarrow> error + jv" where
  "py_add (JStr s) (JStr t) = Inr (JStr (s @ t))"
| "py_add (JBytes s) (JBytes t) = Inr (JBytes (s @ t))"
| "py_add (JList xs) (JList ys) = Inr (JList (xs @ ys))"
| "py_add a b =
     (case (py_num a, py_num b) of
        (Some i, Some j) \<Rightarrow> Inr (JInt (i + j))
      | _ \<Rightarrow>
          (case (py_number a, py_number b) of
             (Some x, Some y) \<Rightarrow> Inr (JFloat (x + y))
           | _ \<Rightarrow> Inl TypeError))"

definition py_min :: "jv \<Rightarrow> jv \<Rightarrow> error + jv" where
  "py_min a b = (case py_lt b a of Inl e \<Rightarrow> Inl e | Inr lt \<Rightarrow> Inr (if lt then b else a))"

definition py_max :: "jv \<Rightarrow> jv \<Rightarrow> error + jv" where
  "py_max a b = (case py_lt a b of Inl e \<Rightarrow> Inl e | Inr lt \<Rightarrow> Inr (if lt then b else a))"

text \<open>
  \<^verbatim>\<open>
  def op_update(count, firstseen, lastseen):
      def transform(doc):
          doc["count"] = doc.get("count", 0) + count
          if firstseen is not None:
              doc["firstseen"] = min(doc.get('firstseen', firstseen), firstseen)
          if lastseen is not None:
              doc["lastseen"] = max(doc.get('lastseen', lastseen), lastseen)
      return transform
  \<close>
\<close>

definition op_update :: "jv \<Rightarrow> jv \<Rightarrow> jv \<Rightarrow> doc \<Rightarrow> error + doc" where
  "op_update cnt firstseen lastseen d =
     (case py_add (dict_get d ''count'' (JInt 0)) cnt of
        Inl e \<Rightarrow> Inl e
      | Inr c \<Rightarrow>
          (let d1 = AList.update ''count'' c d in
           case (if firstseen \<noteq> JNone then
                   (case py_min (dict_get d1 ''firstseen'' firstseen) firstseen of
                      Inl e \<Rightarrow> Inl e
                    | Inr m \<Rightarrow> Inr (AList.update ''firstseen'' m d1))
                 else Inr d1) of
             Inl e \<Rightarrow> Inl e
           | Inr d2 \<Rightarrow>
               (if lastseen \<noteq> JNone then
                  (case py_max (dict_get d2 ''lastseen'' lastseen) lastseen of
                     Inl e \<Rightarrow> Inl e
                   | Inr m \<Rightarrow> Inr (AList.update ''lastseen'' m d2))
                else Inr d2)))"

text \<open>
  The conversion that \<^verbatim>\<open>rec2internal\<close>, \<^verbatim>\<open>insert_or_update\<close> apply to a time: a \<^verbatim>\<open>datetime\<close>
  through \<^verbatim>\<open>utils.datetime2timestamp\<close>, a text (\<^verbatim>\<open>basestring\<close>: text or bytes) through
  \<^verbatim>\<open>utils.all2datetime\<close> first, anything else as it is. What \<^verbatim>\<open>datetime2timestamp\<close>
  returns is a value of the embedding, a float as a rule.
\<close>

definition normalize_time :: "utils \<Rightarrow> jv \<Rightarrow> error + jv" where
  "normalize_time u t =
     (case t of
        JDatetime d \<Rightarrow> Inr (datetime2timestamp u d)
      | JStr s \<Rightarrow>
          (case all2datetime u t of Inl e \<Rightarrow> Inl e | Inr d \<Rightarrow> Inr (datetime2timestamp u d))
      | JBytes s \<Rightarrow>
          (case all2datetime u t of Inl e \<Rightarrow> Inl e | Inr d \<Rightarrow> Inr (datetime2timestamp u d))
      | _ \<Rightarrow> Inr t)"

text \<open>
  \<^verbatim>\<open>
  def rec2internal(cls, rec):
      rec = deepcopy(rec)
      try:
          rec['addr'] = cls.ip2internal(rec['addr'])
      except (KeyError, ValueError):
          pass
      for fld in ['firstseen', 'lastseen']:
          if fld not in rec:
              continue
          if isinstance(rec[fld], datetime):
              rec[fld] = utils.datetime2timestamp(rec[fld])
          elif isinstance(rec[fld], basestring):
              rec[fld] = utils.datetime2timestamp(utils.all2datetime(rec[fld]))
          if '_id' in rec:
              del rec['_id']
      return rec
  \<close>
\<close>

definition rec2internal_addr :: "utils \<Rightarrow> doc \<Rightarrow> error + doc" where
  "rec2internal_addr u r =
     (case map_of r ''addr'' of
        None \<Rightarrow> Inr r
      | Some a \<Rightarrow>
          (case ip2internal u a of
             Inr v \<Rightarrow> Inr (AList.update ''addr'' v r)
           | Inl e \<Rightarrow> (if e = KeyError \<or> e = ValueError then Inr r else Inl e)))"

definition rec2internal_time :: "utils \<Rightarrow> string \<Rightarrow> doc \<Rightarrow> error + doc" where
  "rec2internal_time u fld r =
     (case map_of r fld of
        None \<Rightarrow> Inr r
      | Some t \<Rightarrow>
          (case normalize_time u t of
             Inl e \<Rightarrow> Inl e
           | Inr t' \<Rightarrow> Inr (AList.delete ''_id'' (AList.update fld t' r))))"

definition rec2internal :: "utils \<Rightarrow> doc \<Rightarrow> error + doc" where
  "rec2internal u r =
     (case rec2internal_addr u r of
        Inl e \<Rightarrow> Inl e
      | Inr r1 \<Rightarrow>
          (case rec2internal_time u ''firstseen'' r1 of
             Inl e \<Rightarrow> Inl e
           | Inr r2 \<Rightarrow> rec2internal_time u ''lastseen'' r2))"

text \<open>
  \<^verbatim>\<open>
  def insert_or_update(self, timestamp, spec, getinfos=None, lastseen=None):
      if spec is None:
          return
      q = Query()
      orig = deepcopy(spec)
      spec = self.rec2internal(spec)
      try:
          del spec['infos']
      except KeyError:
          pass
      count = spec.pop("count", 1)
      spec_cond = self.flt_and(*(getattr(q, key) == value
                                 for key, value in viewitems(spec)))
      if isinstance(timestamp, datetime):
          timestamp = utils.datetime2timestamp(timestamp)
      elif isinstance(timestamp, basestring):
          timestamp = utils.datetime2timestamp(utils.all2datetime(timestamp))
      if isinstance(lastseen, datetime):
          lastseen = utils.datetime2timestamp(lastseen)
      elif isinstance(lastseen, basestring):
          lastseen = utils.datetime2timestamp(utils.all2datetime(lastseen))
      current = self.get_one(spec_cond, fields=[])
      if current is not None:
          self.db.update(op_update(count, timestamp, lastseen or timestamp),
                         doc_ids=[current.doc_id])
      else:
          doc = dict(spec, count=count, firstseen=timestamp,
                     lastseen=lastseen or timestamp)
          if getinfos is not None:
              orig.update(getinfos(orig))
              try:
                  doc['infos'] = orig['infos']
              except KeyError:
                  pass
          self.db.upsert(doc, spec_cond)
  \<close>
  The state is the table and the list of the arguments \<^verbatim>\<open>getinfos\<close> has been called with.
  \<^verbatim>\<open>get_one(spec_cond, fields=[])\<close> searches the table, projects every match to the empty
  document with the same \<^verbatim>\<open>doc_id\<close> and returns the first, or \<^verbatim>\<open>None\<close>: \<open>get_one_id\<close> is its
  \<^verbatim>\<open>doc_id\<close>. The result is the exception raised, if any, and the state after the call.
  \<^verbatim>\<open>spec_cond\<close> is built, and may raise, before the times are converted.
\<close>

record pstate =
  pdb :: tdb
  resolved :: "doc list"

definition match_key :: "doc \<Rightarrow> doc" where
  "match_key spec = AList.delete ''count'' (AList.delete ''infos'' spec)"

definition incoming_count :: "doc \<Rightarrow> jv" where
  "incoming_count spec = dict_get (AList.delete ''infos'' spec) ''count'' (JInt 1)"

definition spec_cond :: "(string \<Rightarrow> bool) \<Rightarrow> doc \<Rightarrow> error + cond" where
  "spec_cond query_attr spec =
     flt_and (map (\<lambda>(key, value). getattr_eq query_attr key value) spec)"

definition get_one_id :: "tdb \<Rightarrow> query \<Rightarrow> error + nat option" where
  "get_one_id t cond =
     (case tdb_search t cond of
        Inl e \<Rightarrow> Inl e
      | Inr [] \<Rightarrow> Inr None
      | Inr ((i, d) # rest) \<Rightarrow> Inr (Some i))"

definition py_or :: "jv \<Rightarrow> jv \<Rightarrow> jv" where
  "py_or a b = (if truthy a then a else b)"

definition new_doc :: "doc \<Rightarrow> jv \<Rightarrow> jv \<Rightarrow> jv \<Rightarrow> doc" where
  "new_doc spec cnt timestamp lastseen =
     AList.update ''lastseen'' (py_or lastseen timestamp)
       (AList.update ''firstseen'' timestamp (AList.update ''count'' cnt spec))"

definition with_infos :: "(doc \<Rightarrow> doc) \<Rightarrow> doc \<Rightarrow> doc \<Rightarrow> doc" where
  "with_infos getinfos orig d =
     (case map_of (dict_update orig (getinfos orig)) ''infos'' of
        None \<Rightarrow> d
      | Some infos \<Rightarrow> AList.update ''infos'' infos d)"

definition fold_in :: "pstate \<Rightarrow> nat \<Rightarrow> jv \<Rightarrow> jv \<Rightarrow> jv \<Rightarrow> error option \<times> pstate" where
  "fold_in st doc_id cnt ts ls =
     (case tdb_update_ids (pdb st) (op_update cnt ts (py_or ls ts)) [doc_id] of
        Inl e \<Rightarrow> (Some e, st)
      | Inr t \<Rightarrow> (None, st\<lparr>pdb := t\<rparr>))"

definition create ::
    "pstate \<Rightarrow> doc \<Rightarrow> doc \<Rightarrow> query \<Rightarrow> (doc \<Rightarrow> doc) option \<Rightarrow> error option \<times> pstate" where
  "create st orig d cond getinfos =
     (case getinfos of
        None \<Rightarrow>
          (case tdb_upsert (pdb st) d cond of
             (r, t) \<Rightarrow> (r, st\<lparr>pdb := t\<rparr>))
      | Some g \<Rightarrow>
          (case tdb_upsert (pdb st) (with_infos g orig d) cond of
             (r, t) \<Rightarrow> (r, \<lparr>pdb = t, resolved = resolved st @ [orig]\<rparr>)))"

definition fold_or_create ::
    "pstate \<Rightarrow> doc \<Rightarrow> doc \<Rightarrow> query \<Rightarrow> jv \<Rightarrow> jv \<Rightarrow> (doc \<Rightarrow> doc) option \<Rightarrow> error option \<times> pstate" where
  "fold_or_create st orig spec cond ts ls getinfos =
     (case get_one_id (pdb st) cond of
        Inl e \<Rightarrow> (Some e, st)
      | Inr (Some doc_id) \<Rightarrow> fold_in st doc_id (incoming_count spec) ts ls
      | Inr None \<Rightarrow>
          create st orig (new_doc (match_key spec) (incoming_count spec) ts ls) cond getinfos)"

definition insert_or_update ::
    "utils \<Rightarrow> (string \<Rightarrow> bool) \<Rightarrow> jv \<Rightarrow> doc option \<Rightarrow> (doc \<Rightarrow> doc) option \<Rightarrow> jv \<Rightarrow> pstate
     \<Rightarrow> error option \<times> pstate" where
  "insert_or_update u query_attr timestamp spec getinfos lastseen st =
     (case spec of
        None \<Rightarrow> (None, st)
      | Some orig \<Rightarrow>
          (case rec2internal u orig of
             Inl e \<Rightarrow> (Some e, st)
           | Inr spec1 \<Rightarrow>
               (case spec_cond query_attr (match_key spec1) of
                  Inl e \<Rightarrow> (Some e, st)
                | Inr cond \<Rightarrow>
                    (case normalize_time u timestamp of
                       Inl e \<Rightarrow> (Some e, st)
                     | Inr ts \<Rightarrow>
                         (case normalize_time u lastseen of
                            Inl e \<Rightarrow> (Some e, st)
                          | Inr ls \<Rightarrow>
                              fold_or_create st orig spec1 (call_cond cond) ts ls getinfos)))))"

text \<open>Calls in a row, until one raises: each is a time, a record, a resolver and a last
  time.\<close>

fun insert_or_update_all ::
    "utils \<Rightarrow> (string \<Rightarrow> bool) \<Rightarrow> (jv \<times> doc option \<times> (doc \<Rightarrow> doc) option \<times> jv) list \<Rightarrow> pstate
     \<Rightarrow> error option \<times> pstate" where
  "insert_or_update_all u query_attr [] st = (None, st)"
| "insert_or_update_all u query_attr ((timestamp, spec, getinfos, lastseen) # calls) st =
     (case insert_or_update u query_attr timestamp spec getinfos lastseen st of
        (Some e, st') \<Rightarrow> (Some e, st')
      | (None, st') \<Rightarrow> insert_or_update_all u query_attr calls st')"

text \<open>The observation of the scenario, and the empty passive database.\<close>

definition dns_answer :: doc where
  "dns_answer =
     [(''sensor'', JStr ''S''), (''recontype'', JStr ''DNS_ANSWER''), (''value'', JStr ''example.com'')]"

definition passive_empty :: pstate where
  "passive_empty = \<lparr> pdb = tdb_empty, resolved = [] \<rparr>"

text \<open>A stored scan document, and the table that holds only it.\<close>

definition stored_scan :: doc where
  "stored_scan = [(''_id'', JStr ''ab''), (''scanner'', JStr ''nmap'')]"

definition scans_one :: tdb where
  "scans_one = \<lparr> docs = [(1, stored_scan)], last_id = 1 \<rparr>"

section \<open>Predicates for the passive merge\<close>

text \<open>A stored document matches a key: it has every field of the key, with an equal
  value. That is what \<^verbatim>\<open>spec_cond\<close> of the key tests; a document with further fields
  matches as well.\<close>

definition matches :: "doc \<Rightarrow> doc \<Rightarrow> bool" where
  "matches key d = list_all (\<lambda>(k, v). field_is (JDict d) k v) key"

text \<open>A table as TinyDB keeps it: the ids are distinct and not above the last id, and the
  documents, read from the JSON file, are serializable.\<close>

definition wf_tdb :: "tdb \<Rightarrow> bool" where
  "wf_tdb t =
     (distinct (map fst (docs t)) \<and> (\<forall>i\<in>set (map fst (docs t)). i \<le> last_id t)
      \<and> list_all (\<lambda>(i, d). json_serializable (JDict d)) (docs t))"

text \<open>
  The numbers that \<^verbatim>\<open>firstseen\<close> and \<^verbatim>\<open>lastseen\<close> of a stored document denote;
  \<open>seen_ordered\<close>: they are there with \<open>firstseen \<le> lastseen\<close>; \<open>widened d d'\<close>: from \<open>d\<close> to
  \<open>d'\<close>, \<^verbatim>\<open>firstseen\<close> has not increased and \<^verbatim>\<open>lastseen\<close> has not decreased.
\<close>

definition seen :: "doc \<Rightarrow> (rat \<times> rat) option" where
  "seen d =
     (case (map_of d ''firstseen'', map_of d ''lastseen'') of
        (Some fs, Some ls) \<Rightarrow>
          (case (py_number fs, py_number ls) of
             (Some f, Some l) \<Rightarrow> Some (f, l)
           | _ \<Rightarrow> None)
      | _ \<Rightarrow> None)"

definition seen_ordered :: "doc \<Rightarrow> bool" where
  "seen_ordered d = (case seen d of Some (f, l) \<Rightarrow> f \<le> l | None \<Rightarrow> False)"

definition widened :: "doc \<Rightarrow> doc \<Rightarrow> bool" where
  "widened d d' =
     (case (seen d, seen d') of
        (Some (f, l), Some (f', l')) \<Rightarrow> f' \<le> f \<and> l \<le> l'
      | _ \<Rightarrow> False)"

text \<open>
  The number that a time argument stands for: what its conversion denotes, when the
  conversion returns a number. The times of a call are ordered: the time stamp stands
  for a number, and the last time converts to a false value (\<^verbatim>\<open>None\<close>, 0: the time stamp
  is used in its place) or stands for a number not below the time stamp.
\<close>

definition time_value :: "utils \<Rightarrow> jv \<Rightarrow> rat option" where
  "time_value u t = (case normalize_time u t of Inl e \<Rightarrow> None | Inr ts \<Rightarrow> py_number ts)"

definition times_ordered :: "utils \<Rightarrow> jv \<Rightarrow> jv \<Rightarrow> bool" where
  "times_ordered u timestamp lastseen =
     (case time_value u timestamp of
        None \<Rightarrow> False
      | Some t \<Rightarrow>
          (case normalize_time u lastseen of
             Inl e \<Rightarrow> False
           | Inr ls \<Rightarrow>
               (if truthy ls then (case py_number ls of None \<Rightarrow> False | Some l \<Rightarrow> t \<le> l)
                else True)))"

text \<open>
  A call creates a record when the table holds more documents after it than before.
  \<open>creations_ordered\<close>: in a sequence of calls, run from the state \<open>st\<close>, the times of
  every call that creates a record are ordered. Nothing is asked of the calls that fold
  into a stored record, raise, or return at once.
\<close>

definition creates :: "pstate \<Rightarrow> pstate \<Rightarrow> bool" where
  "creates st st' = (length (docs (pdb st)) < length (docs (pdb st')))"

fun creations_ordered ::
    "utils \<Rightarrow> (string \<Rightarrow> bool) \<Rightarrow> (jv \<times> doc option \<times> (doc \<Rightarrow> doc) option \<times> jv) list \<Rightarrow> pstate
     \<Rightarrow> bool" where
  "creations_ordered u query_attr [] st = True"
| "creations_ordered u query_attr ((timestamp, spec, getinfos, lastseen) # calls) st =
     (case insert_or_update u query_attr timestamp spec getinfos lastseen st of
        (r, st') \<Rightarrow>
          (creates st st' \<longrightarrow> times_ordered u timestamp lastseen)
          \<and> (r = None \<longrightarrow> creations_ordered u query_attr calls st'))"

text \<open>
  A plain key: a match key as \<^verbatim>\<open>insert_or_update\<close> builds it from a record without
  \<^verbatim>\<open>firstseen\<close> and \<^verbatim>\<open>lastseen\<close>, whose values are well-formed and serializable and whose
  field names are not attributes of the query. \<open>merged key n a b st\<close>: the table is
  well-formed and exactly one document matches the key, with count \<open>n\<close>, a \<^verbatim>\<open>firstseen\<close>
  that denotes \<open>a\<close> and a \<^verbatim>\<open>lastseen\<close> that denotes \<open>b\<close>. \<open>resolved_infos\<close>: the \<^verbatim>\<open>infos\<close> that a
  new record gets from the resolver, if any.
\<close>

definition plain_key :: "(string \<Rightarrow> bool) \<Rightarrow> doc \<Rightarrow> bool" where
  "plain_key query_attr key =
     (distinct (map fst key)
      \<and> list_all (\<lambda>(k, v). wf_jv v \<and> json_serializable v \<and> \<not> query_attr k) key
      \<and> map_of key ''count'' = None \<and> map_of key ''firstseen'' = None
      \<and> map_of key ''lastseen'' = None \<and> map_of key ''infos'' = None)"

definition merged :: "doc \<Rightarrow> int \<Rightarrow> rat \<Rightarrow> rat \<Rightarrow> pstate \<Rightarrow> bool" where
  "merged key n a b st =
     (wf_tdb (pdb st)
      \<and> (\<exists>i d fs ls. filter (\<lambda>(i, d). matches key d) (docs (pdb st)) = [(i, d)]
            \<and> map_of d ''count'' = Some (JInt n)
            \<and> map_of d ''firstseen'' = Some fs \<and> py_number fs = Some a
            \<and> map_of d ''lastseen'' = Some ls \<and> py_number ls = Some b))"

definition resolved_infos :: "(doc \<Rightarrow> doc) option \<Rightarrow> doc \<Rightarrow> jv option" where
  "resolved_infos getinfos orig =
     (case getinfos of
        None \<Rightarrow> None
      | Some g \<Rightarrow> map_of (dict_update orig (g orig)) ''infos'')"

text \<open>States for evaluating the merge on the observation of the scenario;
  \<open>dns_answer_at t\<close> is the observation carrying \<open>t\<close> as its own \<^verbatim>\<open>firstseen\<close> and \<^verbatim>\<open>lastseen\<close>.\<close>

definition dns_answer_at :: "int \<Rightarrow> doc" where
  "dns_answer_at t = dns_answer @ [(''firstseen'', JInt t), (''lastseen'', JInt t)]"

definition split_records :: pstate where
  "split_records =
     \<lparr>pdb = \<lparr>docs = [(1, dns_answer_at 10 @ [(''count'', JInt 1)]),
                      (2, dns_answer_at 5 @ [(''count'', JInt 1)])],
             last_id = 2\<rparr>,
      resolved = []\<rparr>"

definition merged_three :: pstate where
  "merged_three =
     \<lparr>pdb = \<lparr>docs = [(1, dns_answer @ [(''count'', JInt 3), (''firstseen'', JInt 5),
                                        (''lastseen'', JInt 20)])],
             last_id = 1\<rparr>,
      resolved = []\<rparr>"

text \<open>A table whose only record is another observation, the answer with an address; the
  table after three sightings of the answer without address; an observation with a field
  called \<^verbatim>\<open>test\<close>, and the table after its first sighting; an observation whose value is a
  byte string, and the table after its sighting.\<close>

definition answer_with_addr :: pstate where
  "answer_with_addr =
     \<lparr>pdb = \<lparr>docs = [(1, dns_answer @ [(''addr'', JInt 0xffffc0a80001), (''count'', JInt 4),
                                        (''firstseen'', JInt 1), (''lastseen'', JInt 2)])],
             last_id = 1\<rparr>,
      resolved = []\<rparr>"

definition answer_with_addr_more :: pstate where
  "answer_with_addr_more =
     \<lparr>pdb = \<lparr>docs = [(1, dns_answer @ [(''addr'', JInt 0xffffc0a80001), (''count'', JInt 7),
                                        (''firstseen'', JInt 1), (''lastseen'', JInt 20)])],
             last_id = 1\<rparr>,
      resolved = []\<rparr>"

definition test_record :: doc where
  "test_record = [(''test'', JInt 1)]"

definition test_record_once :: pstate where
  "test_record_once =
     \<lparr>pdb = \<lparr>docs = [(1, test_record @ [(''count'', JInt 1), (''firstseen'', JInt 5),
                                         (''lastseen'', JInt 5)])],
             last_id = 1\<rparr>,
      resolved = []\<rparr>"

definition bytes_record :: doc where
  "bytes_record = [(''recontype'', JStr ''SSL_SERVER''), (''value'', JBytes [48, 130])]"

definition bytes_record_refused :: pstate where
  "bytes_record_refused = \<lparr>pdb = \<lparr>docs = [], last_id = 1\<rparr>, resolved = []\<rparr>"

text \<open>States for evaluating the order of the times: a record seen from 10 to 15, the same
  after three more sightings, and a record created with a last time below its time
  stamp.\<close>

definition seen_once :: pstate where
  "seen_once =
     \<lparr>pdb = \<lparr>docs = [(1, dns_answer @ [(''count'', JInt 1), (''firstseen'', JInt 10),
                                        (''lastseen'', JInt 15)])],
             last_id = 1\<rparr>,
      resolved = []\<rparr>"

definition more_sightings :: "(jv \<times> doc option \<times> (doc \<Rightarrow> doc) option \<times> jv) list" where
  "more_sightings =
     [(JInt 5, Some dns_answer, None, JNone),
      (JFloat (25 / 2), Some dns_answer, None, JInt 30),
      (JInt 40, Some dns_answer, None, JInt 2)]"

definition seen_more :: pstate where
  "seen_more =
     \<lparr>pdb = \<lparr>docs = [(1, dns_answer @ [(''count'', JInt 4), (''firstseen'', JInt 5),
                                        (''lastseen'', JInt 30)])],
             last_id = 1\<rparr>,
      resolved = []\<rparr>"

definition disordered :: pstate where
  "disordered =
     \<lparr>pdb = \<lparr>docs = [(1, dns_answer @ [(''count'', JInt 1), (''firstseen'', JInt 10),
                                        (''lastseen'', JInt 5)])],
             last_id = 1\<rparr>,
      resolved = []\<rparr>"

section \<open>Properties of the address codec\<close>

lemma be2int_snoc: "be2int (bs @ [b]) = be2int bs * 256 + uint b"
  by (simp add: be2int_def)

lemma be2int_bounds: "0 \<le> be2int bs \<and> be2int bs < 256 ^ length bs"
proof (induction bs rule: rev_induct)
  case Nil
  show ?case by (simp add: be2int_def)
next
  case (snoc b bs)
  have b: "0 \<le> uint b" "uint b < 256"
    using uint_lt2p [of b] by simp_all
  from snoc have "be2int bs + 1 \<le> 256 ^ length bs" by simp
  then have "(be2int bs + 1) * 256 \<le> 256 ^ length bs * 256" by simp
  with snoc b show ?case by (simp add: be2int_snoc algebra_simps)
qed

lemma int2be_be2int: "int2be (length bs) (be2int bs) = bs"
proof (induction bs rule: rev_induct)
  case Nil
  show ?case by simp
next
  case (snoc b bs)
  have b: "0 \<le> uint b" "uint b < 256"
    using uint_lt2p [of b] by simp_all
  then have d: "(be2int bs * 256 + uint b) div 256 = be2int bs"
    by simp
  have w: "(word_of_int (be2int bs * 256 + uint b) :: byte) = b"
  proof -
    have "(word_of_int (be2int bs * 256 + uint b) :: byte)
            = word_of_int (be2int bs) * 256 + b"
      by simp
    also have "(256 :: byte) = 0" by simp
    finally show ?thesis by simp
  qed
  from snoc d w show ?case by (simp add: be2int_snoc)
qed

lemma pack_unpack_QQ:
  assumes "length bs = 16"
  shows "pack_QQ (be2int (take 8 bs)) (be2int (drop 8 bs)) = Inr bs"
proof -
  have l: "length (take 8 bs) = 8" "length (drop 8 bs) = 8"
    using assms by simp_all
  have b1: "0 \<le> be2int (take 8 bs) \<and> be2int (take 8 bs) < 2 ^ 64"
    using be2int_bounds [of "take 8 bs"] l by simp
  have b2: "0 \<le> be2int (drop 8 bs) \<and> be2int (drop 8 bs) < 2 ^ 64"
    using be2int_bounds [of "drop 8 bs"] l by simp
  have r1: "int2be 8 (be2int (take 8 bs)) = take 8 bs"
    using int2be_be2int [of "take 8 bs"] l by simp
  have r2: "int2be 8 (be2int (drop 8 bs)) = drop 8 bs"
    using int2be_be2int [of "drop 8 bs"] l by simp
  from b1 b2 show ?thesis
    unfolding pack_QQ_def r1 r2 by simp
qed

lemma split_join_64:
  fixes a b :: int
  assumes "0 \<le> a" "0 \<le> b" "b < 2 ^ 64"
  shows "drop_bit 64 (push_bit 64 a + b) = a"
    and "(push_bit 64 a + b) AND 0xffffffffffffffff = b"
proof -
  have m: "(0xffffffffffffffff :: int) = mask 64"
    by (simp add: mask_eq_exp_minus_1)
  show "drop_bit 64 (push_bit 64 a + b) = a"
    using assms by (simp add: drop_bit_eq_div push_bit_eq_mult)
  have "(push_bit 64 a + b) AND mask 64 = (push_bit 64 a + b) mod 2 ^ 64"
    by (simp add: take_bit_eq_mod flip: take_bit_eq_mask)
  also have "\<dots> = b"
    using assms by (simp add: push_bit_eq_mult)
  finally show "(push_bit 64 a + b) AND 0xffffffffffffffff = b"
    unfolding m .
qed

text \<open>
  C4. For every address text \<open>a\<close> that \<^verbatim>\<open>utils.ip2bin\<close> accepts (it packs it into 16
  bytes), \<^verbatim>\<open>ip2internal\<close> returns an integer \<open>v\<close> with \<open>0 \<le> v < 2^128\<close>, and
  \<^verbatim>\<open>internal2ip\<close> of \<open>v\<close> is \<^verbatim>\<open>utils.bin2ip\<close> of the very bytes \<^verbatim>\<open>ip2bin\<close> produced, that
  is the canonical text of \<open>a\<close>: the integer codec loses nothing.
\<close>

theorem ip2internal_internal2ip_roundtrip:
  assumes "ip2bin u (JStr a) = Inr bs" and "length bs = 16"
  shows "\<exists>v. ip2internal u (JStr a) = Inr (JInt v) \<and> 0 \<le> v \<and> v < 2 ^ 128
           \<and> internal2ip u (JInt v) = bin2ip u bs"
proof -
  define v1 where "v1 = be2int (take 8 bs)"
  define v2 where "v2 = be2int (drop 8 bs)"
  have l: "length (take 8 bs) = 8" "length (drop 8 bs) = 8"
    using assms(2) by simp_all
  have b1: "0 \<le> v1" "v1 < 2 ^ 64"
    using be2int_bounds [of "take 8 bs"] l by (simp_all add: v1_def)
  have b2: "0 \<le> v2" "v2 < 2 ^ 64"
    using be2int_bounds [of "drop 8 bs"] l by (simp_all add: v2_def)
  have enc: "ip2internal u (JStr a) = Inr (JInt (push_bit 64 v1 + v2))"
    using assms by (simp add: ip2internal_def unpack_QQ_def v1_def v2_def)
  have lo: "0 \<le> push_bit 64 v1 + v2"
    using b1 b2 by (simp add: push_bit_eq_mult)
  have "v1 + 1 \<le> 2 ^ 64" using b1 by simp
  then have "(v1 + 1) * 2 ^ 64 \<le> (2 ^ 64 :: int) * 2 ^ 64"
    by (rule mult_right_mono) simp
  then have hi: "push_bit 64 v1 + v2 < 2 ^ 128"
    using b2 by (simp add: push_bit_eq_mult algebra_simps)
  have dec: "internal2ip u (JInt (push_bit 64 v1 + v2)) = bin2ip u bs"
    using split_join_64 [OF b1(1) b2] pack_unpack_QQ [OF assms(2)]
    by (simp add: internal2ip_def v1_def v2_def)
  from enc lo hi dec show ?thesis by blast
qed

theorem ip2internal_internal2ip_roundtrip_witness:
  "ip2bin sample_utils (JStr ''192.168.0.1'') = Inr sample_packed
   \<and> length sample_packed = 16
   \<and> (\<exists>v. ip2internal sample_utils (JStr ''192.168.0.1'') = Inr (JInt v) \<and> 0 \<le> v \<and> v < 2 ^ 128
         \<and> internal2ip sample_utils (JInt v) = Inr ''192.168.0.1'')"
proof -
  have h1: "ip2bin sample_utils (JStr ''192.168.0.1'') = Inr sample_packed"
    by (simp add: sample_utils_def)
  have h2: "length sample_packed = 16"
    by (simp add: sample_packed_def)
  have h3: "bin2ip sample_utils sample_packed = Inr ''192.168.0.1''"
    by (simp add: sample_utils_def)
  show ?thesis
    using ip2internal_internal2ip_roundtrip [OF h1 h2] h1 h2 h3 by simp
qed

text \<open>
  C9. \<^verbatim>\<open>ip2internal\<close> returns an integer argument as it is, without calling
  \<^verbatim>\<open>utils.ip2bin\<close>, and applying it to its own result changes nothing: whenever
  \<^verbatim>\<open>ip2internal(a)\<close> returns \<open>v\<close>, \<^verbatim>\<open>ip2internal(v)\<close> returns \<open>v\<close>.
\<close>

theorem ip2internal_idempotent:
  "ip2internal u (JInt i) = Inr (JInt i)
   \<and> (\<forall>a v. ip2internal u a = Inr v \<longrightarrow> ip2internal u v = Inr v)"
proof -
  have "ip2internal u v = Inr v" if "ip2internal u a = Inr v" for a v
  proof (cases "py_num a")
    case (Some i)
    with that show ?thesis by (simp add: ip2internal_def)
  next
    case None
    with that obtain w where "v = JInt w"
      by (auto simp: ip2internal_def split: sum.splits)
    then show ?thesis by (simp add: ip2internal_def)
  qed
  then show ?thesis by (simp add: ip2internal_def)
qed

theorem ip2internal_idempotent_witness:
  "ip2internal sample_utils (JStr ''192.168.0.1'') = Inr (JInt 0xffffc0a80001)
   \<and> ip2internal sample_utils (JInt 0xffffc0a80001) = Inr (JInt 0xffffc0a80001)"
proof -
  have h: "ip2internal sample_utils (JStr ''192.168.0.1'') = Inr (JInt 0xffffc0a80001)"
    by (simp add: ip2internal_def sample_utils_def sample_packed_def unpack_QQ_def be2int_def)
  show ?thesis
    using ip2internal_idempotent [of sample_utils 0] h by blast
qed

section \<open>Port search: the scenario and the negated form\<close>

lemma py_eq_JStr_iff: "py_eq w (JStr s) \<longleftrightarrow> w = JStr s"
  by (cases w) auto

lemma py_eq_JInt_iff: "py_eq w (JInt i) \<longleftrightarrow> py_number w = Some (of_int i)"
  by (cases w) auto

lemma py_any_total:
  assumes "\<And>e. e \<in> set es \<Longrightarrow> cond e = Inr (P e)"
  shows "py_any cond es = Inr (\<exists>e\<in>set es. P e)"
  using assms by (induction es) (auto split: bool.splits)

lemma py_all_total:
  assumes "\<And>e. e \<in> set es \<Longrightarrow> cond e = Inr (P e)"
  shows "py_all cond es = Inr (\<forall>e\<in>set es. P e)"
  using assms by (induction es) (auto split: bool.splits)

lemma q_eq_field: "q_eq [k] v p = Inr (field_is p k v)"
  by (simp add: q_eq_def prepare_test_def field_is_def split: option.splits)

lemma q_ne_field: "q_ne [k] v p = Inr (field_differs p k v)"
  by (simp add: q_ne_def prepare_test_def field_differs_def split: option.splits)

lemma q_and_total: "c1 v = Inr a \<Longrightarrow> c2 v = Inr b \<Longrightarrow> q_and c1 c2 v = Inr (a \<and> b)"
  by (cases a) (simp_all add: q_and_def)

lemma q_or_total: "c1 v = Inr a \<Longrightarrow> c2 v = Inr b \<Longrightarrow> q_or c1 c2 v = Inr (a \<or> b)"
  by (cases a) (simp_all add: q_or_def)

lemma q_not_total: "c v = Inr a \<Longrightarrow> q_not c v = Inr (\<not> a)"
  by (simp add: q_not_def)

lemma q_any_ports:
  assumes "map_of r ''ports'' = Some (JList ps)"
    and "\<And>e. e \<in> set ps \<Longrightarrow> cond e = Inr (P e)"
  shows "q_any [''ports''] cond (JDict r) = Inr (\<exists>e\<in>set ps. P e)"
  using assms(1) py_any_total [of ps cond P, OF assms(2)]
  by (simp add: q_any_def prepare_test_def)

lemma q_all_ports:
  assumes "map_of r ''ports'' = Some (JList ps)"
    and "\<And>e. e \<in> set ps \<Longrightarrow> cond e = Inr (P e)"
  shows "q_all [''ports''] cond (JDict r) = Inr (\<forall>e\<in>set ps. P e)"
  using assms(1) py_all_total [of ps cond P, OF assms(2)]
  by (simp add: q_all_def prepare_test_def)

lemma searchport_pos:
  assumes "map_of r ''ports'' = Some (JList ps)" and "\<not> py_eq port (JStr ''host'')"
  shows "searchport port proto st False (JDict r)
         = Inr (\<exists>p\<in>set ps. field_is p ''port'' port \<and> field_is p ''protocol'' proto
                   \<and> field_is p ''state_state'' st)"
proof -
  have "q_any [''ports'']
          (q_and (q_and (q_eq [''port''] port) (q_eq [''protocol''] proto))
                 (q_eq [''state_state''] st)) (JDict r)
        = Inr (\<exists>p\<in>set ps. (field_is p ''port'' port \<and> field_is p ''protocol'' proto)
                   \<and> field_is p ''state_state'' st)"
    by (rule q_any_ports [OF assms(1)]) (intro q_and_total q_eq_field)
  with assms(2) show ?thesis
    by (simp add: searchport_def Let_def conj_assoc)
qed

lemma searchport_neg:
  assumes "map_of r ''ports'' = Some (JList ps)" and "\<not> py_eq port (JStr ''host'')"
  shows "searchport port proto st True (JDict r)
         = Inr ((\<exists>p\<in>set ps. field_is p ''port'' port \<and> field_is p ''protocol'' proto
                   \<and> field_differs p ''state_state'' st)
                \<or> (\<forall>p\<in>set ps. \<not> (field_is p ''port'' port \<and> field_is p ''protocol'' proto)))"
proof -
  let ?res = "q_and (q_eq [''port''] port) (q_eq [''protocol''] proto)"
  have a: "q_any [''ports''] (q_and ?res (q_ne [''state_state''] st)) (JDict r)
        = Inr (\<exists>p\<in>set ps. (field_is p ''port'' port \<and> field_is p ''protocol'' proto)
                   \<and> field_differs p ''state_state'' st)"
    by (rule q_any_ports [OF assms(1)]) (intro q_and_total q_eq_field q_ne_field)
  have b: "q_all [''ports''] (q_not ?res) (JDict r)
        = Inr (\<forall>p\<in>set ps. \<not> (field_is p ''port'' port \<and> field_is p ''protocol'' proto))"
    by (rule q_all_ports [OF assms(1)]) (intro q_not_total q_and_total q_eq_field)
  have "q_or (q_any [''ports''] (q_and ?res (q_ne [''state_state''] st)))
             (q_all [''ports''] (q_not ?res)) (JDict r)
        = Inr ((\<exists>p\<in>set ps. (field_is p ''port'' port \<and> field_is p ''protocol'' proto)
                   \<and> field_differs p ''state_state'' st)
               \<or> (\<forall>p\<in>set ps. \<not> (field_is p ''port'' port \<and> field_is p ''protocol'' proto)))"
    using a b by (rule q_or_total)
  with assms(2) show ?thesis
    by (simp add: searchport_def Let_def conj_assoc)
qed

lemma field_is_JStr_unique:
  "field_is p k (JStr s) \<Longrightarrow> field_is p k (JStr t) \<longleftrightarrow> s = t"
  by (auto simp: field_is_def py_eq_JStr_iff split: option.splits)

lemma field_is_JInt_unique:
  "field_is p k (JInt i) \<Longrightarrow> field_is p k (JInt j) \<longleftrightarrow> i = j"
  by (auto simp: field_is_def py_eq_JInt_iff split: option.splits)

lemma field_is_not_differs: "field_is p k v \<Longrightarrow> \<not> field_differs p k v"
  by (auto simp: field_is_def field_differs_def split: option.splits)

text \<open>
  On every host record whose \<^verbatim>\<open>ports\<close> array holds a port (tcp, 80, open) and a port
  (tcp, 22, closed), \<^verbatim>\<open>searchport(80, 'tcp', 'open')\<close> matches, \<^verbatim>\<open>searchport(80, 'tcp',
  'closed')\<close> does not, and \<^verbatim>\<open>searchport(80, 'tcp', 'open', neg=True)\<close> does not. On every
  record with a \<^verbatim>\<open>ports\<close> array, the negated search for a port number is the disjunction:
  some port with that number and protocol has another state, or no port has that number
  and protocol. It is not the elementwise negation: on a record whose only port (tcp, 80)
  records no state, the negated search is false and the elementwise negation is true.
\<close>

lemma searchport_with_ports_array:
  "(map_of r ''ports'' = Some (JList [p1, p2]) \<longrightarrow>
      port_entry p1 ''tcp'' 80 ''open'' \<longrightarrow> port_entry p2 ''tcp'' 22 ''closed'' \<longrightarrow>
        searchport (JInt 80) (JStr ''tcp'') (JStr ''open'') False (JDict r) = Inr True
      \<and> searchport (JInt 80) (JStr ''tcp'') (JStr ''closed'') False (JDict r) = Inr False
      \<and> searchport (JInt 80) (JStr ''tcp'') (JStr ''open'') True (JDict r) = Inr False)
   \<and> (map_of r ''ports'' = Some (JList ps) \<longrightarrow> \<not> py_eq port (JStr ''host'') \<longrightarrow>
        searchport port proto st True (JDict r)
        = Inr ((\<exists>p\<in>set ps. field_is p ''port'' port \<and> field_is p ''protocol'' proto
                   \<and> field_differs p ''state_state'' st)
               \<or> (\<forall>p\<in>set ps. \<not> (field_is p ''port'' port \<and> field_is p ''protocol'' proto))))
   \<and> searchport (JInt 80) (JStr ''tcp'') (JStr ''open'') True (JDict stateless_port_host)
       = Inr False
   \<and> searchport_elementwise_neg (JInt 80) (JStr ''tcp'') (JStr ''open'')
       (JDict stateless_port_host) = Inr True"
proof (intro conjI impI)
  assume r: "map_of r ''ports'' = Some (JList [p1, p2])"
    and p1: "port_entry p1 ''tcp'' 80 ''open''"
    and p2: "port_entry p2 ''tcp'' 22 ''closed''"
  have nh: "\<not> py_eq (JInt 80) (JStr ''host'')" by simp
  have f1: "field_is p1 ''port'' (JInt 80)" "field_is p1 ''protocol'' (JStr ''tcp'')"
    "field_is p1 ''state_state'' (JStr ''open'')"
    using p1 by (simp_all add: port_entry_def)
  have f2: "\<not> field_is p2 ''port'' (JInt 80)"
    using p2 field_is_JInt_unique [of p2 "''port''" 22 80] by (simp add: port_entry_def)
  have g1: "\<not> field_is p1 ''state_state'' (JStr ''closed'')"
    using f1(3) field_is_JStr_unique [of p1 "''state_state''" "''open''" "''closed''"] by simp
  have g2: "\<not> field_differs p1 ''state_state'' (JStr ''open'')"
    using f1(3) by (rule field_is_not_differs)
  show "searchport (JInt 80) (JStr ''tcp'') (JStr ''open'') False (JDict r) = Inr True"
    using f1 by (simp add: searchport_pos [OF r nh])
  show "searchport (JInt 80) (JStr ''tcp'') (JStr ''closed'') False (JDict r) = Inr False"
    using f2 g1 by (simp add: searchport_pos [OF r nh])
  show "searchport (JInt 80) (JStr ''tcp'') (JStr ''open'') True (JDict r) = Inr False"
    using f1 f2 g2 by (simp add: searchport_neg [OF r nh])
next
  assume "map_of r ''ports'' = Some (JList ps)" and "\<not> py_eq port (JStr ''host'')"
  then show "searchport port proto st True (JDict r)
        = Inr ((\<exists>p\<in>set ps. field_is p ''port'' port \<and> field_is p ''protocol'' proto
                   \<and> field_differs p ''state_state'' st)
               \<or> (\<forall>p\<in>set ps. \<not> (field_is p ''port'' port \<and> field_is p ''protocol'' proto)))"
    by (rule searchport_neg)
next
  have r: "map_of stateless_port_host ''ports''
             = Some (JList [JDict [(''protocol'', JStr ''tcp''), (''port'', JInt 80)]])"
    by (simp add: stateless_port_host_def)
  have nh: "\<not> py_eq (JInt 80) (JStr ''host'')" by simp
  show "searchport (JInt 80) (JStr ''tcp'') (JStr ''open'') True (JDict stateless_port_host)
       = Inr False"
    by (simp add: searchport_neg [OF r nh] field_is_def field_differs_def)
  have "q_all [''ports'']
          (q_not (q_and (q_and (q_eq [''port''] (JInt 80)) (q_eq [''protocol''] (JStr ''tcp'')))
                        (q_eq [''state_state''] (JStr ''open'')))) (JDict stateless_port_host)
        = Inr (\<forall>p\<in>set [JDict [(''protocol'', JStr ''tcp''), (''port'', JInt 80)]].
                 \<not> ((field_is p ''port'' (JInt 80) \<and> field_is p ''protocol'' (JStr ''tcp''))
                      \<and> field_is p ''state_state'' (JStr ''open'')))"
    by (rule q_all_ports [OF r]) (intro q_not_total q_and_total q_eq_field)
  then show "searchport_elementwise_neg (JInt 80) (JStr ''tcp'') (JStr ''open'')
       (JDict stateless_port_host) = Inr True"
    by (simp add: searchport_elementwise_neg_def field_is_def)
qed

lemma searchport_on_scenario_host:
  "searchport (JInt 80) (JStr ''tcp'') (JStr ''open'') False (JDict scenario_host) = Inr True
   \<and> searchport (JInt 80) (JStr ''tcp'') (JStr ''closed'') False (JDict scenario_host) = Inr False
   \<and> searchport (JInt 80) (JStr ''tcp'') (JStr ''open'') True (JDict scenario_host) = Inr False
   \<and> searchport (JInt 22) (JStr ''tcp'') (JStr ''open'') True (JDict scenario_host) = Inr True
   \<and> searchport (JInt 443) (JStr ''tcp'') (JStr ''open'') True (JDict scenario_host) = Inr True"
proof -
  let ?p1 = "JDict [(''protocol'', JStr ''tcp''), (''port'', JInt 80), (''state_state'', JStr ''open'')]"
  let ?p2 = "JDict [(''protocol'', JStr ''tcp''), (''port'', JInt 22), (''state_state'', JStr ''closed'')]"
  have r: "map_of scenario_host ''ports'' = Some (JList [?p1, ?p2])"
    by (simp add: scenario_host_def)
  have e1: "port_entry ?p1 ''tcp'' 80 ''open''" and e2: "port_entry ?p2 ''tcp'' 22 ''closed''"
    by (simp_all add: port_entry_def field_is_def)
  have n22: "\<not> py_eq (JInt 22) (JStr ''host'')" and n443: "\<not> py_eq (JInt 443) (JStr ''host'')"
    by simp_all
  note t = searchport_with_ports_array
  from t [of scenario_host ?p1 ?p2] r e1 e2
  have a: "searchport (JInt 80) (JStr ''tcp'') (JStr ''open'') False (JDict scenario_host) = Inr True
   \<and> searchport (JInt 80) (JStr ''tcp'') (JStr ''closed'') False (JDict scenario_host) = Inr False
   \<and> searchport (JInt 80) (JStr ''tcp'') (JStr ''open'') True (JDict scenario_host) = Inr False"
    by blast
  from t [of scenario_host _ _ "[?p1, ?p2]" "JInt 22" "JStr ''tcp''" "JStr ''open''"] r n22
  have b: "searchport (JInt 22) (JStr ''tcp'') (JStr ''open'') True (JDict scenario_host) = Inr True"
    by (simp add: field_is_def field_differs_def)
  from t [of scenario_host _ _ "[?p1, ?p2]" "JInt 443" "JStr ''tcp''" "JStr ''open''"] r n443
  have c: "searchport (JInt 443) (JStr ''tcp'') (JStr ''open'') True (JDict scenario_host) = Inr True"
    by (simp add: field_is_def field_differs_def)
  from a b c show ?thesis by simp
qed

text \<open>
  C1. The scenario holds: on the host with the ports (tcp, 80, open) and (tcp, 22, closed)
  the search for (80, tcp, open) matches, the search for (80, tcp, closed) does not, and
  the negated search for (80, tcp, open) does not. The general form of the negated search
  does not hold on a host record that has no \<^verbatim>\<open>ports\<close> entry: no port (80, tcp) exists
  on it, the positive search is false, and the negated search is false as well, where
  "no port with that number and protocol exists at all" asks for true. On the same host
  with an empty \<^verbatim>\<open>ports\<close> array the negated search is true: \<^verbatim>\<open>q.ports.all(~res)\<close> is false
  when the path \<^verbatim>\<open>ports\<close> does not resolve and true on an empty array.
\<close>

theorem searchport_negated_without_ports:
  "searchport (JInt 80) (JStr ''tcp'') (JStr ''open'') False (JDict scenario_host) = Inr True
   \<and> searchport (JInt 80) (JStr ''tcp'') (JStr ''closed'') False (JDict scenario_host) = Inr False
   \<and> searchport (JInt 80) (JStr ''tcp'') (JStr ''open'') True (JDict scenario_host) = Inr False
   \<and> map_of portless_host ''ports'' = None
   \<and> searchport (JInt 80) (JStr ''tcp'') (JStr ''open'') False (JDict portless_host) = Inr False
   \<and> searchport (JInt 80) (JStr ''tcp'') (JStr ''open'') True (JDict portless_host) = Inr False
   \<and> searchport (JInt 80) (JStr ''tcp'') (JStr ''open'') True (JDict empty_ports_host) = Inr True"
proof -
  have a: "map_of portless_host ''ports'' = None"
    by (simp add: portless_host_def)
  have b: "searchport (JInt 80) (JStr ''tcp'') (JStr ''open'') False (JDict portless_host) = Inr False"
    by (simp add: searchport_def Let_def portless_host_def q_any_def prepare_test_def)
  have c: "searchport (JInt 80) (JStr ''tcp'') (JStr ''open'') True (JDict portless_host) = Inr False"
    by (simp add: searchport_def Let_def portless_host_def q_any_def q_all_def q_or_def
          prepare_test_def)
  have d: "searchport (JInt 80) (JStr ''tcp'') (JStr ''open'') True (JDict empty_ports_host) = Inr True"
    by (simp add: searchport_def Let_def empty_ports_host_def portless_host_def q_any_def
          q_all_def q_or_def prepare_test_def)
  from searchport_on_scenario_host a b c d show ?thesis by simp
qed

section \<open>A missing path yields nothing\<close>

lemma absent_contains: "absent v k \<longleftrightarrow> py_contains v k = Inr False"
  by (cases v) (auto simp: map_of_eq_None_iff)

lemma absent_unresolved: "absent v k \<Longrightarrow> resolve [k] v = None"
  by (cases v) simp_all

lemma present_dict:
  assumes "\<not> absent (JDict d) k"
  shows "\<exists>sub. map_of d k = Some sub \<and> py_contains (JDict d) k = Inr True"
proof -
  from assms obtain sub where sub: "map_of d k = Some sub" by auto
  then have "(k, sub) \<in> set d" by (rule map_of_SomeD)
  then have "k \<in> fst ` set d" by force
  with sub show ?thesis by simp
qed

lemma split_dot_split1:
  "split_dot f = (case split1 f of None \<Rightarrow> [f] | Some (a, b) \<Rightarrow> a # split_dot b)"
  by (induction f) (auto split: option.splits list.splits)

lemma startswith_dot_split1:
  "startswith c (p @ ''.'') \<Longrightarrow> \<exists>a b. split1 c = Some (a, b)"
proof (induction c arbitrary: p)
  case Nil
  then show ?case by (cases p) simp_all
next
  case (Cons x c)
  show ?case
  proof (cases p)
    case Nil
    with Cons.prems show ?thesis by simp
  next
    case (Cons y q)
    with Cons.prems have "startswith c (q @ ''.'')" by simp
    then obtain a b where "split1 c = Some (a, b)"
      using Cons.IH by blast
    then show ?thesis by simp
  qed
qed

lemma next_count_dict:
  "\<exists>cf' cv'. next_count (JDict d) cur cf cv = Inr (cf', cv')"
proof (cases cf)
  case None
  then show ?thesis by (simp add: next_count_def)
next
  case (Some c)
  show ?thesis
  proof (cases "startswith c (cur @ ''.'')")
    case False
    with Some show ?thesis by (simp add: next_count_def)
  next
    case True
    then obtain a b where "split1 c = Some (a, b)"
      using startswith_dot_split1 by blast
    with Some True show ?thesis by (simp add: next_count_def)
  qed
qed

lemma gfv_each_empty:
  assumes "\<And>s. s \<in> set subrecs \<Longrightarrow> generate_field_values lf s f b cf cv = Inr []"
  shows "generate_field_values_each lf subrecs f b cf cv = Inr []"
  using assms by (induction subrecs) simp_all

text \<open>What \<open>lacks\<close> says when the first segment is there: the record is a dictionary, and
  the walk goes on in the value of the segment.\<close>

lemma lacks_present:
  assumes "lacks lf rcd field base" and "split1 field = Some (cur, rest)"
    and "\<not> absent rcd cur"
  shows "\<exists>d sub. rcd = JDict d \<and> map_of d cur = Some sub
           \<and> (if join_base base cur \<in> set lf then
                 \<exists>subrecs. py_iter sub = Some subrecs
                   \<and> (\<forall>s\<in>set subrecs. lacks lf s rest (join_base base cur))
               else lacks lf sub rest (join_base base cur))"
proof -
  from assms(1) have unfolded:
    "case split1 field of
       None \<Rightarrow> absent rcd field
     | Some (cur, rest) \<Rightarrow>
         (if absent rcd cur then True
          else
            (case rcd of
               JDict d \<Rightarrow>
                 (case map_of d cur of
                    None \<Rightarrow> False
                  | Some sub \<Rightarrow>
                      (if join_base base cur \<in> set lf then
                         (case py_iter sub of
                            None \<Rightarrow> False
                          | Some subrecs \<Rightarrow>
                              list_all (\<lambda>subrec. lacks lf subrec rest (join_base base cur))
                                subrecs)
                       else lacks lf sub rest (join_base base cur)))
             | _ \<Rightarrow> False))"
    by (subst (asm) lacks.simps)
  with assms(2,3) obtain d where d: "rcd = JDict d"
    by (cases rcd) (simp_all del: lacks.simps)
  with assms(3) obtain sub where sub: "map_of d cur = Some sub"
    by auto
  from unfolded assms(2,3) d sub show ?thesis
    by (cases "py_iter sub")
       (auto simp add: list_all_iff simp del: lacks.simps split: if_splits)
qed

lemma gfv_lacks:
  "lacks lf rcd field base \<Longrightarrow> generate_field_values lf rcd field base cf cv = Inr []"
proof (induction field arbitrary: rcd base cf cv rule: length_induct)
  case (1 field)
  show ?case
  proof (cases "split1 field")
    case None
    with "1.prems" have "py_contains rcd field = Inr False"
      by (simp add: absent_contains)
    with None show ?thesis
      by (subst generate_field_values.simps) simp
  next
    case (Some cr)
    obtain cur rest where cr: "cr = (cur, rest)" by (cases cr)
    note sp = Some [unfolded cr]
    from sp have shorter: "length rest < length field"
      by (rule split1_shorter)
    show ?thesis
    proof (cases "absent rcd cur")
      case True
      then have "py_contains rcd cur = Inr False"
        by (simp add: absent_contains)
      with sp show ?thesis
        by (subst generate_field_values.simps) simp
    next
      case False
      from lacks_present [OF "1.prems" sp False] obtain d sub
        where d: "rcd = JDict d" and sub: "map_of d cur = Some sub"
          and rest: "if join_base base cur \<in> set lf then
                 \<exists>subrecs. py_iter sub = Some subrecs
                   \<and> (\<forall>s\<in>set subrecs. lacks lf s rest (join_base base cur))
               else lacks lf sub rest (join_base base cur)"
        by blast
      from False d have c: "py_contains rcd cur = Inr True"
        using present_dict by blast
      from sub d have g: "py_getitem rcd cur = Inr sub" by simp
      obtain cf' cv' where nc: "next_count rcd cur cf cv = Inr (cf', cv')"
        using next_count_dict [of d cur cf cv] d by blast
      show ?thesis
      proof (cases "join_base base cur \<in> set lf")
        case True
        with rest obtain subrecs where it: "py_iter sub = Some subrecs"
          and all: "\<forall>s\<in>set subrecs. lacks lf s rest (join_base base cur)"
          by auto
        have "generate_field_values lf s rest (join_base base cur) cf' cv' = Inr []"
          if "s \<in> set subrecs" for s
          using "1.IH" shorter all that by blast
        then have "generate_field_values_each lf subrecs rest (join_base base cur) cf' cv' = Inr []"
          by (rule gfv_each_empty)
        with sp c g nc True it show ?thesis
          by (subst generate_field_values.simps) simp
      next
        case False
        with rest have "lacks lf sub rest (join_base base cur)" by simp
        then have "generate_field_values lf sub rest (join_base base cur) cf' cv' = Inr []"
          using "1.IH" shorter by blast
        with sp c g nc False show ?thesis
          by (subst generate_field_values.simps) simp
      qed
    qed
  qed
qed

lemma resolve_append:
  "resolve (p @ q) v = (case resolve p v of None \<Rightarrow> None | Some w \<Rightarrow> resolve q w)"
proof (induction p arbitrary: v)
  case Nil
  show ?case by simp
next
  case (Cons a p)
  then show ?case by (cases v) (simp_all split: option.splits)
qed

text \<open>The predicate is built when no segment of the path names an attribute of the
  query.\<close>

lemma sfe_builds:
  "list_all (\<lambda>seg. \<not> qa seg) (split_dot field)
   \<Longrightarrow> \<exists>cond. search_field_exists qa lf field base baseq = Inr cond"
proof (induction field arbitrary: base baseq rule: length_induct)
  case (1 field)
  show ?case
  proof (cases "split1 field")
    case None
    with "1.prems" have "\<not> qa field"
      by (simp add: split_dot_split1 [of field])
    with None show ?thesis
      by (subst search_field_exists.simps) simp
  next
    case (Some fr)
    obtain fld nextfields where fr: "fr = (fld, nextfields)" by (cases fr)
    note sp = Some [unfolded fr]
    from sp have shorter: "length nextfields < length field"
      by (rule split1_shorter)
    from "1.prems" sp have na: "\<not> qa fld"
      and nx: "list_all (\<lambda>seg. \<not> qa seg) (split_dot nextfields)"
      by (simp_all add: split_dot_split1 [of field])
    from "1.IH" shorter nx
    obtain c1 where c1: "search_field_exists qa lf nextfields (join_base base fld) [] = Inr c1"
      by blast
    from "1.IH" shorter nx
    obtain c2 where c2: "search_field_exists qa lf nextfields (join_base base fld) (baseq @ [fld]) = Inr c2"
      by blast
    from sp na c1 c2 show ?thesis
      by (subst search_field_exists.simps) simp
  qed
qed

lemma sfe_unresolved:
  "search_field_exists qa lf field base baseq = Inr cond \<Longrightarrow> resolve baseq whole = None
   \<Longrightarrow> cond whole = Inr False"
proof (induction field arbitrary: base baseq cond rule: length_induct)
  case (1 field)
  note built = "1.prems"(1) and un = "1.prems"(2)
  show ?case
  proof (cases "split1 field")
    case None
    with built have "cond = q_exists (baseq @ [field])"
      by (subst (asm) search_field_exists.simps) (simp split: if_splits)
    with un show ?thesis
      by (simp add: q_exists_def prepare_test_def resolve_append)
  next
    case (Some fr)
    obtain fld nextfields where fr: "fr = (fld, nextfields)" by (cases fr)
    note sp = Some [unfolded fr]
    from sp have shorter: "length nextfields < length field"
      by (rule split1_shorter)
    from un have un': "resolve (baseq @ [fld]) whole = None"
      by (simp add: resolve_append)
    show ?thesis
    proof (cases "join_base base fld \<in> set lf")
      case True
      with built sp obtain c where "cond = q_any (baseq @ [fld]) c"
        by (subst (asm) search_field_exists.simps) (auto split: if_splits sum.splits)
      with un' show ?thesis
        by (simp add: q_any_def prepare_test_def)
    next
      case False
      with built sp
      have "search_field_exists qa lf nextfields (join_base base fld) (baseq @ [fld]) = Inr cond"
        by (subst (asm) search_field_exists.simps) (simp split: if_splits)
      with "1.IH" shorter un' show ?thesis by blast
    qed
  qed
qed

lemma py_any_all_false:
  assumes "\<And>e. e \<in> set es \<Longrightarrow> cond e = Inr False"
  shows "py_any cond es = Inr False"
  using assms by (induction es) simp_all

lemma sfe_lacks:
  "lacks lf rcd field base \<Longrightarrow> resolve baseq whole = Some rcd
   \<Longrightarrow> search_field_exists qa lf field base baseq = Inr cond
   \<Longrightarrow> cond whole = Inr False"
proof (induction field arbitrary: rcd base baseq whole cond rule: length_induct)
  case (1 field)
  note lk = "1.prems"(1) and rs = "1.prems"(2) and built = "1.prems"(3)
  show ?case
  proof (cases "split1 field")
    case None
    with lk have "absent rcd field" by simp
    with rs have "resolve (baseq @ [field]) whole = None"
      by (simp add: resolve_append absent_unresolved)
    moreover from None built have "cond = q_exists (baseq @ [field])"
      by (subst (asm) search_field_exists.simps) (simp split: if_splits)
    ultimately show ?thesis
      by (simp add: q_exists_def prepare_test_def)
  next
    case (Some cr)
    obtain cur rest where cr: "cr = (cur, rest)" by (cases cr)
    note sp = Some [unfolded cr]
    from sp have shorter: "length rest < length field"
      by (rule split1_shorter)
    show ?thesis
    proof (cases "absent rcd cur")
      case True
      with rs have un: "resolve (baseq @ [cur]) whole = None"
        by (simp add: resolve_append absent_unresolved)
      show ?thesis
      proof (cases "join_base base cur \<in> set lf")
        case True
        with built sp obtain c where "cond = q_any (baseq @ [cur]) c"
          by (subst (asm) search_field_exists.simps) (auto split: if_splits sum.splits)
        with un show ?thesis
          by (simp add: q_any_def prepare_test_def)
      next
        case False
        with built sp
        have "search_field_exists qa lf rest (join_base base cur) (baseq @ [cur]) = Inr cond"
          by (subst (asm) search_field_exists.simps) (simp split: if_splits)
        then show ?thesis using un by (rule sfe_unresolved)
      qed
    next
      case False
      from lacks_present [OF lk sp False] obtain d sub
        where d: "rcd = JDict d" and sub: "map_of d cur = Some sub"
          and more: "if join_base base cur \<in> set lf then
                 \<exists>subrecs. py_iter sub = Some subrecs
                   \<and> (\<forall>s\<in>set subrecs. lacks lf s rest (join_base base cur))
               else lacks lf sub rest (join_base base cur)"
        by blast
      from rs d sub have re: "resolve (baseq @ [cur]) whole = Some sub"
        by (simp add: resolve_append)
      show ?thesis
      proof (cases "join_base base cur \<in> set lf")
        case True
        with more obtain subrecs where it: "py_iter sub = Some subrecs"
          and all: "\<forall>s\<in>set subrecs. lacks lf s rest (join_base base cur)"
          by auto
        from True built sp obtain c
          where c: "search_field_exists qa lf rest (join_base base cur) [] = Inr c"
            and cond: "cond = q_any (baseq @ [cur]) c"
          by (subst (asm) search_field_exists.simps) (auto split: if_splits sum.splits)
        have "c s = Inr False" if "s \<in> set subrecs" for s
        proof -
          from that all have "lacks lf s rest (join_base base cur)" by blast
          moreover have "resolve [] s = Some s" by simp
          ultimately show ?thesis
            using "1.IH" shorter c by blast
        qed
        then have "py_any c subrecs = Inr False"
          by (rule py_any_all_false)
        with cond re it show ?thesis
          by (simp add: q_any_def prepare_test_def)
      next
        case False
        with more have "lacks lf sub rest (join_base base cur)" by simp
        moreover from False built sp
        have "search_field_exists qa lf rest (join_base base cur) (baseq @ [cur]) = Inr cond"
          by (subst (asm) search_field_exists.simps) (simp split: if_splits)
        ultimately show ?thesis
          using "1.IH" shorter re by blast
      qed
    qed
  qed
qed

text \<open>
  C7, as amended. For every record from which the dotted path \<open>p\<close> is missing in the sense
  of \<^const>\<open>lacks\<close> (the walk reaches a dictionary without the next key, or a text or a
  list that does not contain the next segment) and every path none of whose segments
  names an attribute of the query object: the field-value extractor yields nothing and
  raises nothing, whatever the count arguments, and the field-exists predicate is built
  for \<open>p\<close> and is false on the record.
\<close>

theorem missing_path_yields_nothing:
  assumes "lacks list_fields r p []"
    and "list_all (\<lambda>segment. \<not> query_attr segment) (split_dot p)"
  shows "generate_field_values list_fields r p [] countfield countval = Inr []
         \<and> field_exists_on query_attr list_fields p r = Inr False"
proof -
  from assms(2) obtain cond
    where c: "search_field_exists query_attr list_fields p [] [] = Inr cond"
    using sfe_builds by blast
  have "resolve [] r = Some r" by simp
  with assms(1) have "cond r = Inr False"
    using c by (rule sfe_lacks)
  with c gfv_lacks [OF assms(1)] show ?thesis
    by (simp add: field_exists_on_def)
qed

theorem missing_path_yields_nothing_witness:
  "lacks [''ports''] two_ports_host ''ports.service_name'' []
   \<and> list_all (\<lambda>segment. \<not> sample_attr segment) (split_dot ''ports.service_name'')
   \<and> generate_field_values [''ports''] two_ports_host ''ports.service_name'' [] None JNone = Inr []
   \<and> field_exists_on sample_attr [''ports''] ''ports.service_name'' two_ports_host = Inr False
   \<and> lacks [] (JDict [(''a'', JStr ''xyz'')]) ''a.b'' []
   \<and> generate_field_values [] (JDict [(''a'', JStr ''xyz'')]) ''a.b'' [] (Some ''count'') JNone
       = Inr []
   \<and> field_exists_on sample_attr [] ''a.b'' (JDict [(''a'', JStr ''xyz'')]) = Inr False"
proof -
  have h1: "lacks [''ports''] two_ports_host ''ports.service_name'' []"
    by (simp add: two_ports_host_def join_base_def)
  have h2: "list_all (\<lambda>segment. \<not> sample_attr segment) (split_dot ''ports.service_name'')"
    by (simp add: sample_attr_def)
  have h3: "lacks [] (JDict [(''a'', JStr ''xyz'')]) ''a.b'' []"
    by (simp add: join_base_def)
  have h4: "list_all (\<lambda>segment. \<not> sample_attr segment) (split_dot ''a.b'')"
    by (simp add: sample_attr_def)
  from missing_path_yields_nothing [OF h1 h2, of None JNone]
    missing_path_yields_nothing [OF h3 h4, of "Some ''count''" JNone] h1 h2 h3
  show ?thesis by simp
qed

text \<open>
  C7 as stated fails in three places. The record \<^verbatim>\<open>{'a': 5}\<close> has no value at \<^verbatim>\<open>a.b\<close>
  (the path does not resolve, and the exists predicate is false), and the extractor
  raises \<^verbatim>\<open>TypeError\<close> on \<^verbatim>\<open>'b' in 5\<close>. The record \<^verbatim>\<open>{'a': 'xyz'}\<close> has no value at \<^verbatim>\<open>a.y\<close>,
  and the extractor, finding \<^verbatim>\<open>'y' in 'xyz'\<close>, raises \<^verbatim>\<open>TypeError\<close> on \<^verbatim>\<open>'xyz'['y']\<close>. The
  empty record has no value at \<^verbatim>\<open>exists\<close>, the extractor yields nothing, and building the
  predicate raises \<^verbatim>\<open>AttributeError\<close>: \<^verbatim>\<open>getattr(Query(), 'exists')\<close> is the method.
\<close>

theorem missing_under_scalar_counterexample:
  "resolve (split_dot ''a.b'') (JDict [(''a'', JInt 5)]) = None
   \<and> field_exists_on sample_attr [] ''a.b'' (JDict [(''a'', JInt 5)]) = Inr False
   \<and> generate_field_values [] (JDict [(''a'', JInt 5)]) ''a.b'' [] None JNone = Inl TypeError
   \<and> resolve (split_dot ''a.y'') (JDict [(''a'', JStr ''xyz'')]) = None
   \<and> generate_field_values [] (JDict [(''a'', JStr ''xyz'')]) ''a.y'' [] None JNone = Inl TypeError
   \<and> resolve (split_dot ''exists'') (JDict []) = None
   \<and> generate_field_values [] (JDict []) ''exists'' [] None JNone = Inr []
   \<and> field_exists_on sample_attr [] ''exists'' (JDict []) = Inl AttributeError"
  by (simp add: join_base_def next_count_def q_exists_def prepare_test_def field_exists_on_def
        sample_attr_def)

section \<open>Top values: length and order\<close>

lemma most_common_length: "0 \<le> k \<Longrightarrow> length (most_common (Some k) items) \<le> nat k"
  by (simp add: most_common_def)

lemma most_common_counts_sorted: "sorted_wrt (\<ge>) (map snd (most_common n items))"
proof -
  let ?s = "sort_key (\<lambda>(val, cnt). - cnt) items"
  have "sorted (map (\<lambda>(val, cnt). - cnt) ?s)"
    by (rule sorted_sort_key)
  then have "sorted_wrt (\<le>) (map uminus (map snd ?s))"
    by (simp add: case_prod_unfold comp_def)
  then have s: "sorted_wrt (\<ge>) (map snd ?s)"
    by (simp add: sorted_wrt_map)
  have "sorted_wrt (\<ge>) (map snd (take m ?s))" for m
    using s by (simp add: take_map [symmetric] sorted_wrt_take)
  with s show ?thesis
    by (cases n) (simp_all add: most_common_def)
qed

lemma map_snd_rank:
  "map snd (map (\<lambda>(val, cnt). (f val, cnt)) xs) = map snd xs"
  by (induction xs) auto

lemma passive_rank_sorted:
  assumes "passive_rank d emitted topnbr = Inr res"
  shows "sorted_wrt (\<ge>) (map snd res)"
proof (cases d)
  case True
  let ?counted = "most_common topnbr (counter py_eq (map fst emitted))"
  from True assms
  have "res = map (\<lambda>(val, cnt). (val, rat_of_int cnt))
                (topvalues_rank py_eq (\<lambda>val. val) (map fst emitted) topnbr)"
    by (simp add: passive_rank_def split: if_splits)
  then have "map snd res = map rat_of_int (map snd ?counted)"
    by (simp add: topvalues_rank_def case_prod_unfold comp_def)
  moreover have "sorted_wrt (\<ge>) (map snd ?counted)"
    by (rule most_common_counts_sorted)
  ultimately show ?thesis
    by (simp add: sorted_wrt_map)
next
  case False
  with assms obtain items
    where "res = map (\<lambda>(val, cnt). (val, cnt)) (most_common topnbr items)"
    by (auto simp: passive_rank_def split: sum.splits)
  then show ?thesis
    by (simp only: map_snd_rank most_common_counts_sorted)
qed

lemma passive_rank_length:
  assumes "passive_rank d emitted (Some K) = Inr res" and "0 \<le> K"
  shows "length res \<le> nat K"
  using assms
  by (auto simp: passive_rank_def topvalues_rank_def most_common_length
        split: if_splits sum.splits)

text \<open>
  C6. For every \<open>K \<ge> 0\<close>, whatever the extractor of the pseudo-field yields on the
  records that match the filter: the list that \<^verbatim>\<open>TinyDBActive.topvalues\<close> returns has at
  most \<open>K\<close> entries and its counts never increase; so has every list that
  \<^verbatim>\<open>TinyDBPassive.topvalues\<close> returns, counting events or summing their counts.
\<close>

theorem topvalues_at_most_K_non_increasing:
  "0 \<le> K \<longrightarrow>
     (length (topvalues_rank eq outputproc emitted (Some K)) \<le> nat K
      \<and> sorted_wrt (\<ge>) (map snd (topvalues_rank eq outputproc emitted (Some K))))
     \<and> (passive_rank distinct_events yielded (Some K) = Inr res \<longrightarrow>
          length res \<le> nat K \<and> sorted_wrt (\<ge>) (map snd res))
     \<and> (topvalues_passive list_fields field distinct_events (Some K) recs = Inr res' \<longrightarrow>
          length res' \<le> nat K \<and> sorted_wrt (\<ge>) (map snd res'))"
proof (intro impI conjI)
  assume K: "0 \<le> K"
  then show "length (topvalues_rank eq outputproc emitted (Some K)) \<le> nat K"
    by (simp add: topvalues_rank_def most_common_length)
  show "sorted_wrt (\<ge>) (map snd (topvalues_rank eq outputproc emitted (Some K)))"
    by (simp only: topvalues_rank_def map_snd_rank most_common_counts_sorted)
  {
    assume r: "passive_rank distinct_events yielded (Some K) = Inr res"
    from r K show "length res \<le> nat K" by (rule passive_rank_length)
    from r show "sorted_wrt (\<ge>) (map snd res)" by (rule passive_rank_sorted)
  }
  {
    assume "topvalues_passive list_fields field distinct_events (Some K) recs = Inr res'"
    then obtain em where r: "passive_rank distinct_events em (Some K) = Inr res'"
      by (auto simp: topvalues_passive_def split: sum.splits)
    from r K show "length res' \<le> nat K" by (rule passive_rank_length)
    from r show "sorted_wrt (\<ge>) (map snd res')" by (rule passive_rank_sorted)
  }
qed

theorem topvalues_at_most_K_non_increasing_witness:
  "topvalues_rank (=) (\<lambda>val. val) [''a'', ''b'', ''a'', ''c'', ''c'', ''a''] (Some 2)
     = [(''a'', 3), (''c'', 2)]
   \<and> topvalues_passive [] ''value'' True (Some 2) dns_events
       = Inr [(JStr ''a.example'', 3), (JStr ''b.example'', 1)]
   \<and> topvalues_passive [] ''value'' False (Some 2) dns_events
       = Inr [(JStr ''b.example'', 7), (JStr ''a.example'', 4)]
   \<and> length [(JStr ''b.example'', 7 :: rat), (JStr ''a.example'', 4)] \<le> nat 2
   \<and> sorted_wrt (\<ge>) (map snd [(JStr ''b.example'', 7 :: rat), (JStr ''a.example'', 4)])"
proof -
  have a: "topvalues_rank (=) (\<lambda>val. val) [''a'', ''b'', ''a'', ''c'', ''c'', ''a''] (Some 2)
            = [(''a'', 3), (''c'', 2)]"
    by (simp add: topvalues_rank_def most_common_def counter_def)
  have b: "topvalues_passive [] ''value'' True (Some 2) dns_events
            = Inr [(JStr ''a.example'', 3), (JStr ''b.example'', 1)]"
    by (simp add: topvalues_passive_def passive_rank_def dns_events_def join_base_def weigh_def
          topvalues_rank_def most_common_def counter_def)
  have c: "topvalues_passive [] ''value'' False (Some 2) dns_events
            = Inr [(JStr ''b.example'', 7), (JStr ''a.example'', 4)]"
    by (simp add: topvalues_passive_def passive_rank_def dns_events_def join_base_def weigh_def
          unpack_pair_def dict_get_def most_common_def)
  have K: "(0 :: int) \<le> 2" by simp
  from topvalues_at_most_K_non_increasing
         [of 2 "(=)" "\<lambda>val. val" "[''a'', ''b'', ''a'', ''c'', ''c'', ''a'']" False _ _
             "[]" "''value''" dns_events "[(JStr ''b.example'', 7), (JStr ''a.example'', 4)]"]
       K c
  have "length [(JStr ''b.example'', 7 :: rat), (JStr ''a.example'', 4)] \<le> nat 2
        \<and> sorted_wrt (\<ge>) (map snd [(JStr ''b.example'', 7 :: rat), (JStr ''a.example'', 4)])"
    by blast
  with a b c show ?thesis by blast
qed

section \<open>The sort comparator: first key, None first, stability\<close>

lemma py_eq_JNone_iff: "py_eq w JNone \<longleftrightarrow> w = JNone"
  by (cases w) auto

lemma key_values_swap:
  "key_values ks f1 f2 = Inr (g1, g2) \<Longrightarrow> key_values ks f2 f1 = Inr (g2, g1)"
  by (induction ks arbitrary: f1 f2) (auto split: sum.splits)

lemma cmp_ties_prefix:
  "list_all (\<lambda>(k, d). ties k v1 v2) pre \<Longrightarrow> cmp (pre @ post) v1 v2 = cmp post v1 v2"
  by (induction pre) (auto simp: ties_def split: sum.splits)

lemma cmp_decided:
  "\<not> ties k v1 v2 \<Longrightarrow> cmp ((k, dir) # post) v1 v2 = cmp [(k, dir)] v1 v2"
  by (auto simp: ties_def split: sum.splits)

lemma cmp_none_first:
  assumes "key_values (split_dot k) v1 v2 = Inr (JNone, f2)" and "f2 \<noteq> JNone"
  shows "cmp ((k, dir) # post) v1 v2 = Inr (- dir)" and "cmp ((k, dir) # post) v2 v1 = Inr dir"
proof -
  from assms(2) have n: "\<not> py_eq f2 JNone" "\<not> py_eq JNone f2"
    by (simp_all add: py_eq_JNone_iff)
  from assms(1) n show "cmp ((k, dir) # post) v1 v2 = Inr (- dir)" by simp
  from key_values_swap [OF assms(1)] n assms(2)
  show "cmp ((k, dir) # post) v2 v1 = Inr dir" by simp
qed

lemma insort_cmp_mset: "insort_cmp c x ys = Inr zs \<Longrightarrow> mset zs = add_mset x (mset ys)"
  by (induction ys arbitrary: zs) (auto split: sum.splits if_splits)

lemma sorted_cmp_mset: "sorted_cmp c xs = Inr ys \<Longrightarrow> mset ys = mset xs"
  by (induction xs arbitrary: ys) (auto split: sum.splits dest: insort_cmp_mset)

lemma insort_cmp_returns:
  "(\<forall>y\<in>set ys. \<exists>r. c y x = Inr r) \<Longrightarrow> \<exists>zs. insort_cmp c x ys = Inr zs"
  by (induction ys) auto

lemma sorted_cmp_returns:
  assumes "\<forall>x\<in>set xs. \<forall>y\<in>set xs. \<exists>r. c x y = Inr r"
  shows "\<exists>ys. sorted_cmp c xs = Inr ys"
  using assms
proof (induction xs)
  case Nil
  show ?case by simp
next
  case (Cons x xs)
  then obtain ys where ys: "sorted_cmp c xs = Inr ys" by auto
  then have "set ys = set xs"
    using sorted_cmp_mset mset_eq_setD by blast
  with Cons.prems have "\<forall>y\<in>set ys. \<exists>r. c y x = Inr r" by simp
  then have "\<exists>zs. insort_cmp c x ys = Inr zs"
    by (rule insort_cmp_returns)
  then obtain zs where "insort_cmp c x ys = Inr zs" ..
  with ys show ?case by simp
qed

lemma insort_cmp_filter_in:
  assumes "insort_cmp c x ys = Inr zs" and "P x"
    and "\<forall>y\<in>set ys. P y \<longrightarrow> c y x = Inr 0"
  shows "filter P zs = x # filter P ys"
  using assms by (induction ys arbitrary: zs) (auto split: sum.splits if_splits)

lemma insort_cmp_filter_out:
  assumes "insort_cmp c x ys = Inr zs" and "\<not> P x"
  shows "filter P zs = filter P ys"
  using assms by (induction ys arbitrary: zs) (auto split: sum.splits if_splits)

lemma sorted_cmp_stable:
  assumes "sorted_cmp c xs = Inr ys"
    and "\<forall>x\<in>set xs. \<forall>y\<in>set xs. P x \<and> P y \<longrightarrow> c x y = Inr 0"
  shows "filter P ys = filter P xs"
  using assms
proof (induction xs arbitrary: ys)
  case Nil
  then show ?case by simp
next
  case (Cons x xs)
  from Cons.prems(1) obtain ys' where ys': "sorted_cmp c xs = Inr ys'"
    and ins: "insort_cmp c x ys' = Inr ys"
    by (auto split: sum.splits)
  from Cons.prems(2) have "filter P ys' = filter P xs"
    by (intro Cons.IH [OF ys']) simp
  moreover have s: "set ys' = set xs"
    using ys' sorted_cmp_mset mset_eq_setD by blast
  show ?case
  proof (cases "P x")
    case True
    with Cons.prems(2) s have "\<forall>y\<in>set ys'. P y \<longrightarrow> c y x = Inr 0" by simp
    with ins True have "filter P ys = x # filter P ys'"
      by (rule insort_cmp_filter_in)
    with calculation True show ?thesis by simp
  next
    case False
    with ins have "filter P ys = filter P ys'"
      by (rule insort_cmp_filter_out)
    with calculation False show ?thesis by simp
  qed
qed

lemma get_sorted_returns:
  assumes "\<forall>x\<in>set xs. \<forall>y\<in>set xs. \<exists>r. cmp srt x y = Inr r"
  shows "\<exists>ys. get_sorted srt xs = Inr ys \<and> mset ys = mset xs"
proof (cases "srt = []")
  case True
  then show ?thesis by (simp add: get_sorted_def)
next
  case False
  from assms obtain ys where "sorted_cmp (cmp srt) xs = Inr ys"
    using sorted_cmp_returns by blast
  with False show ?thesis
    by (auto simp: get_sorted_def dest: sorted_cmp_mset)
qed

lemma get_sorted_stable:
  assumes "get_sorted srt xs = Inr ys"
    and "\<forall>x\<in>set xs. \<forall>y\<in>set xs. P x \<and> P y \<longrightarrow> cmp srt x y = Inr 0"
  shows "filter P ys = filter P xs"
proof (cases "srt = []")
  case True
  with assms(1) show ?thesis by (simp add: get_sorted_def)
next
  case False
  with assms(1) have "sorted_cmp (cmp srt) xs = Inr ys"
    by (simp add: get_sorted_def)
  then show ?thesis using assms(2) by (rule sorted_cmp_stable)
qed

text \<open>
  C5, as amended. For every list of sort keys and every pair of records \<open>v1\<close>, \<open>v2\<close>:
  when the records tie on the keys before \<open>k\<close> and not on \<open>k\<close>, the comparator returns
  what the key \<open>k\<close> alone gives; when they tie on all keys it returns 0. When the look-up
  of \<open>k\<close> returns \<^verbatim>\<open>None\<close> for \<open>v1\<close> (missing or \<^verbatim>\<open>None\<close>) and another value for \<open>v2\<close>, the
  comparator returns \<open>-dir\<close> for \<open>(v1, v2)\<close> and \<open>dir\<close> for \<open>(v2, v1)\<close>, and the sort puts \<open>v1\<close>
  first for a positive direction and last for a negative one, whatever their order in
  the input. When no comparison among the records raises, the sort returns a
  permutation of them; and in what it returns, records that compare 0 with each other
  keep their relative order.
\<close>

theorem cmp_first_key_none_first_stable:
  "(list_all (\<lambda>(k, d). ties k v1 v2) pre \<longrightarrow> \<not> ties k v1 v2 \<longrightarrow>
      cmp (pre @ (k, dir) # post) v1 v2 = cmp [(k, dir)] v1 v2)
   \<and> (list_all (\<lambda>(k, d). ties k v1 v2) srt \<longrightarrow> cmp srt v1 v2 = Inr 0)
   \<and> (key_values (split_dot k) v1 v2 = Inr (JNone, f2) \<longrightarrow> f2 \<noteq> JNone \<longrightarrow>
        cmp [(k, dir)] v1 v2 = Inr (- dir) \<and> cmp [(k, dir)] v2 v1 = Inr dir
        \<and> (0 < dir \<longrightarrow> get_sorted [(k, dir)] [v1, v2] = Inr [v1, v2]
                        \<and> get_sorted [(k, dir)] [v2, v1] = Inr [v1, v2])
        \<and> (dir < 0 \<longrightarrow> get_sorted [(k, dir)] [v1, v2] = Inr [v2, v1]
                        \<and> get_sorted [(k, dir)] [v2, v1] = Inr [v2, v1]))
   \<and> ((\<forall>x\<in>set xs. \<forall>y\<in>set xs. \<exists>r. cmp srt x y = Inr r) \<longrightarrow>
        (\<exists>ys. get_sorted srt xs = Inr ys \<and> mset ys = mset xs))
   \<and> (get_sorted srt xs = Inr ys \<longrightarrow>
        (\<forall>x\<in>set xs. \<forall>y\<in>set xs. P x \<and> P y \<longrightarrow> cmp srt x y = Inr 0) \<longrightarrow>
        filter P ys = filter P xs)"
proof (intro conjI impI)
  assume p: "list_all (\<lambda>(k, d). ties k v1 v2) pre" and n: "\<not> ties k v1 v2"
  from p have "cmp (pre @ (k, dir) # post) v1 v2 = cmp ((k, dir) # post) v1 v2"
    by (rule cmp_ties_prefix)
  also from n have "\<dots> = cmp [(k, dir)] v1 v2"
    by (rule cmp_decided)
  finally show "cmp (pre @ (k, dir) # post) v1 v2 = cmp [(k, dir)] v1 v2" .
next
  assume "list_all (\<lambda>(k, d). ties k v1 v2) srt"
  then show "cmp srt v1 v2 = Inr 0"
    using cmp_ties_prefix [of v1 v2 srt "[]"] by simp
next
  assume kv: "key_values (split_dot k) v1 v2 = Inr (JNone, f2)" and f2: "f2 \<noteq> JNone"
  note c = cmp_none_first [OF kv f2, of dir "[]"]
  show "cmp [(k, dir)] v1 v2 = Inr (- dir)" by (rule c(1))
  show "cmp [(k, dir)] v2 v1 = Inr dir" by (rule c(2))
  {
    assume "0 < dir"
    with c show "get_sorted [(k, dir)] [v1, v2] = Inr [v1, v2]"
      and "get_sorted [(k, dir)] [v2, v1] = Inr [v1, v2]"
      by (simp_all add: get_sorted_def del: cmp.simps)
  }
  {
    assume "dir < 0"
    with c show "get_sorted [(k, dir)] [v1, v2] = Inr [v2, v1]"
      and "get_sorted [(k, dir)] [v2, v1] = Inr [v2, v1]"
      by (simp_all add: get_sorted_def del: cmp.simps)
  }
next
  assume "\<forall>x\<in>set xs. \<forall>y\<in>set xs. \<exists>r. cmp srt x y = Inr r"
  then show "\<exists>ys. get_sorted srt xs = Inr ys \<and> mset ys = mset xs"
    by (rule get_sorted_returns)
next
  assume "get_sorted srt xs = Inr ys"
    and "\<forall>x\<in>set xs. \<forall>y\<in>set xs. P x \<and> P y \<longrightarrow> cmp srt x y = Inr 0"
  then show "filter P ys = filter P xs"
    by (rule get_sorted_stable)
qed

text \<open>
  C5 as stated fails where a look-up meets a value that is neither false nor a
  dictionary: \<^verbatim>\<open>{'a': 5}\<close> has no value at \<^verbatim>\<open>a.b\<close> and \<^verbatim>\<open>{'a': {'b': 1}}\<close> has the value 1
  there, yet the comparator does not put the first before the second: \<^verbatim>\<open>(5 or {}).get('b')\<close>
  raises \<^verbatim>\<open>AttributeError\<close>, and so does the sort.
\<close>

theorem cmp_raises_counterexample:
  "resolve (split_dot ''a.b'') (JDict [(''a'', JInt 5)]) = None
   \<and> resolve (split_dot ''a.b'') (JDict [(''a'', JDict [(''b'', JInt 1)])]) = Some (JInt 1)
   \<and> cmp [(''a.b'', 1)] (JDict [(''a'', JInt 5)]) (JDict [(''a'', JDict [(''b'', JInt 1)])])
       = Inl AttributeError
   \<and> get_sorted [(''a.b'', 1)] [JDict [(''a'', JDict [(''b'', JInt 1)])], JDict [(''a'', JInt 5)]]
       = Inl AttributeError"
  by (simp add: get_sorted_def key_step_def dict_get_def)

theorem cmp_first_key_none_first_stable_witness:
  "cmp [(''infos.as_num'', 1), (''name'', 1)] rec_a rec_d = Inr (- 1)
   \<and> cmp [(''infos.as_num'', 1)] rec_a rec_d = Inr 0
   \<and> cmp [(''infos.as_num'', 1)] rec_b rec_c = Inr (- 1)
   \<and> cmp [(''infos.as_num'', - 1)] rec_b rec_c = Inr 1
   \<and> get_sorted [(''infos.as_num'', 1)] [rec_c, rec_b] = Inr [rec_b, rec_c]
   \<and> get_sorted [(''infos.as_num'', - 1)] [rec_b, rec_c] = Inr [rec_c, rec_b]
   \<and> get_sorted [(''infos.as_num'', - 1)] [rec_a, rec_b, rec_c, rec_d]
       = Inr [rec_a, rec_d, rec_c, rec_b]
   \<and> filter (\<lambda>r. r = rec_a \<or> r = rec_d) [rec_a, rec_d, rec_c, rec_b] = [rec_a, rec_d]"
proof -
  note t = cmp_first_key_none_first_stable
  note defs = rec_a_def rec_b_def rec_c_def rec_d_def key_step_def dict_get_def
  have tie: "list_all (\<lambda>(k, d). ties k rec_a rec_d) [(''infos.as_num'', 1 :: int)]"
    by (simp add: ties_def defs)
  have ntie: "\<not> ties ''name'' rec_a rec_d"
    by (simp add: ties_def defs)
  have single: "cmp [(''name'', 1)] rec_a rec_d = Inr (- 1)"
    by (simp add: defs)
  from t [of rec_a rec_d "[(''infos.as_num'', 1)]" "''name''" 1 "[]"] tie ntie single
  have a: "cmp [(''infos.as_num'', 1), (''name'', 1)] rec_a rec_d = Inr (- 1)"
    by simp
  from t [of rec_a rec_d _ _ _ _ "[(''infos.as_num'', 1)]"] tie
  have b: "cmp [(''infos.as_num'', 1)] rec_a rec_d = Inr 0"
    by blast
  have kv: "key_values (split_dot ''infos.as_num'') rec_b rec_c = Inr (JNone, JInt 3)"
    by (simp add: defs)
  have ne: "JInt 3 \<noteq> JNone" by simp
  from t [of rec_b rec_c _ "''infos.as_num''" 1 _ _ "JInt 3"] kv ne
  have c: "cmp [(''infos.as_num'', 1)] rec_b rec_c = Inr (- 1)
           \<and> get_sorted [(''infos.as_num'', 1)] [rec_c, rec_b] = Inr [rec_b, rec_c]"
    by simp
  from t [of rec_b rec_c _ "''infos.as_num''" "- 1" _ _ "JInt 3"] kv ne
  have d: "cmp [(''infos.as_num'', - 1)] rec_b rec_c = Inr 1
           \<and> get_sorted [(''infos.as_num'', - 1)] [rec_b, rec_c] = Inr [rec_c, rec_b]"
    by simp
  have s: "get_sorted [(''infos.as_num'', - 1)] [rec_a, rec_b, rec_c, rec_d]
             = Inr [rec_a, rec_d, rec_c, rec_b]"
    by (simp add: get_sorted_def defs)
  have p: "\<forall>x\<in>set [rec_a, rec_b, rec_c, rec_d]. \<forall>y\<in>set [rec_a, rec_b, rec_c, rec_d].
             (x = rec_a \<or> x = rec_d) \<and> (y = rec_a \<or> y = rec_d)
             \<longrightarrow> cmp [(''infos.as_num'', - 1)] x y = Inr 0"
    by (auto simp: defs)
  from t [of _ _ _ _ _ _ "[(''infos.as_num'', - 1)]" _ "[rec_a, rec_b, rec_c, rec_d]"
             "[rec_a, rec_d, rec_c, rec_b]" "\<lambda>r. r = rec_a \<or> r = rec_d"] s p
  have "filter (\<lambda>r. r = rec_a \<or> r = rec_d) [rec_a, rec_d, rec_c, rec_b]
        = filter (\<lambda>r. r = rec_a \<or> r = rec_d) [rec_a, rec_b, rec_c, rec_d]"
    by blast
  also have "\<dots> = [rec_a, rec_d]"
    by (simp add: defs)
  finally have e: "filter (\<lambda>r. r = rec_a \<or> r = rec_d) [rec_a, rec_d, rec_c, rec_b] = [rec_a, rec_d]" .
  from a b c d s e show ?thesis by blast
qed

section \<open>Scan documents: a reused identifier\<close>

lemma get_doc_q_eq_found:
  assumes "(i, d) \<in> set ds" and "map_of d k = Some (JStr s)"
  shows "\<exists>found. get_doc (q_eq [k] (JStr s)) ds = Inr (Some found)"
  using assms(1)
proof (induction ds)
  case Nil
  then show ?case by simp
next
  case (Cons x ds)
  obtain j e where x: "x = (j, e)" by (cases x)
  have "q_eq [k] (JStr s) (JDict e) = Inr (field_is (JDict e) k (JStr s))"
    by (rule q_eq_field)
  then show ?case
  proof (cases "field_is (JDict e) k (JStr s)")
    case True
    with \<open>q_eq [k] (JStr s) (JDict e) = Inr (field_is (JDict e) k (JStr s))\<close> x
    show ?thesis by simp
  next
    case False
    with assms(2) have "(i, d) \<noteq> (j, e)"
      by (auto simp: field_is_def)
    with Cons x have "\<exists>found. get_doc (q_eq [k] (JStr s)) ds = Inr (Some found)"
      by auto
    with False \<open>q_eq [k] (JStr s) (JDict e) = Inr (field_is (JDict e) k (JStr s))\<close> x
    show ?thesis by simp
  qed
qed

text \<open>
  C8. When the identifier of a scan document decodes to the identifier of a scan
  document that is stored, \<^verbatim>\<open>store_scan_doc\<close> raises \<^verbatim>\<open>ValueError\<close> and the table of scan
  documents is what it was: nothing is inserted or overwritten.
\<close>

theorem store_scan_doc_duplicate:
  assumes "map_of scan ''_id'' = Some (JBytes raw)" and "decode raw = Inr ident"
    and "(i, d) \<in> set (docs db_scans)" and "map_of d ''_id'' = Some (JStr ident)"
  shows "store_scan_doc decode db_scans scan = (Inl ValueError, db_scans)"
proof -
  from assms(3,4) obtain found
    where "tdb_get db_scans (q_eq [''_id''] (JStr ident)) = Inr (Some found)"
    unfolding tdb_get_def using get_doc_q_eq_found by blast
  with assms(1,2) show ?thesis
    by (simp add: store_scan_doc_def)
qed

theorem store_scan_doc_duplicate_witness:
  "store_scan_doc ascii_decode scans_one [(''_id'', JBytes [97, 98]), (''scanner'', JStr ''masscan'')]
     = (Inl ValueError, scans_one)
   \<and> store_scan_doc ascii_decode tdb_empty stored_scan = (Inl AttributeError, tdb_empty)
   \<and> store_scan_doc ascii_decode tdb_empty [(''_id'', JBytes [97, 98]), (''scanner'', JStr ''nmap'')]
     = (Inr ''ab'', scans_one)"
proof -
  have h1: "map_of [(''_id'', JBytes [97, 98]), (''scanner'', JStr ''masscan'')] ''_id''
              = Some (JBytes [97, 98])"
    by simp
  have h2: "ascii_decode [97, 98] = Inr ''ab''"
    by code_simp
  have h3: "(1, stored_scan) \<in> set (docs scans_one)"
    by (simp add: scans_one_def)
  have h4: "map_of stored_scan ''_id'' = Some (JStr ''ab'')"
    by (simp add: stored_scan_def)
  have a: "store_scan_doc ascii_decode tdb_empty stored_scan = (Inl AttributeError, tdb_empty)"
    by (simp add: store_scan_doc_def stored_scan_def)
  have b: "store_scan_doc ascii_decode tdb_empty [(''_id'', JBytes [97, 98]), (''scanner'', JStr ''nmap'')]
     = (Inr ''ab'', scans_one)"
    using h2
    by (simp add: store_scan_doc_def tdb_get_def tdb_empty_def tdb_insert_def tdb_write_def
          scans_one_def stored_scan_def)
  from store_scan_doc_duplicate [of _ _ ascii_decode, OF h1 h2 h3 h4] a b show ?thesis by simp
qed

section \<open>Passive merge\<close>

text \<open>
  C10. \<^verbatim>\<open>insert_or_update\<close> with \<^verbatim>\<open>None\<close> for the record returns without raising and
  leaves the state as it was, for every state, time, resolver and last time: the table
  is unchanged and the list of resolver calls has not grown.
\<close>

theorem insert_or_update_none:
  "insert_or_update u query_attr timestamp None getinfos lastseen st = (None, st)"
  by (simp add: insert_or_update_def)


end
